theory Spec2Isabelle
  imports Main "HOL-Library.Word"
begin

unbundle bit_operations_syntax

section \<open>Machine types and kernel constants\<close>

text \<open>
  The driver is written for 32-bit ARM: \<open>u32\<close> and \<open>unsigned long\<close> are 32-bit words,
  \<open>u64\<close> and \<open>s64\<close> are 64-bit words (a signed reading is taken with \<open>sint\<close> where the C
  code compares signed values; the kernel is built with wrapping signed arithmetic).
  C \<open>int\<close> values that only carry an index or a negative errno are modelled as \<open>int\<close>.
\<close>

type_synonym u32 = "32 word"
type_synonym u64 = "64 word"
type_synonym s64 = "64 word"

definition EPERM :: int where "EPERM = 1"
definition ENOENT :: int where "ENOENT = 2"
definition EBUSY :: int where "EBUSY = 16"
definition ENODEV :: int where "ENODEV = 19"
definition EINVAL :: int where "EINVAL = 22"
definition ENOSPC :: int where "ENOSPC = 28"

definition ARMPMU_MAX_HWEVENTS :: nat where "ARMPMU_MAX_HWEVENTS = 32"
definition CACHE_OP_UNSUPPORTED :: u32 where "CACHE_OP_UNSUPPORTED = 0xFFFF"

text \<open>Flags of \<open>hwc->state\<close>, of the \<open>flags\<close> argument of add/start/stop/del, and the
  \<open>event->state\<close> value \<open>PERF_EVENT_STATE_OFF\<close> (declared in linux/perf_event.h).\<close>

definition PERF_HES_STOPPED :: u32 where "PERF_HES_STOPPED = 0x01"
definition PERF_HES_UPTODATE :: u32 where "PERF_HES_UPTODATE = 0x02"
definition PERF_EF_START :: u32 where "PERF_EF_START = 0x01"
definition PERF_EF_RELOAD :: u32 where "PERF_EF_RELOAD = 0x02"
definition PERF_EF_UPDATE :: u32 where "PERF_EF_UPDATE = 0x04"
definition PERF_EVENT_STATE_OFF :: int where "PERF_EVENT_STATE_OFF = - 1"

section \<open>Data model\<close>

text \<open>\<open>struct perf_event_attr\<close>: the fields of the generic event descriptor the driver reads.\<close>

record perf_event_attr =
  attr_type :: u32
  attr_config :: u64
  exclude_user :: bool
  exclude_kernel :: bool
  exclude_hv :: bool
  exclude_idle :: bool

text \<open>\<open>struct hw_perf_event\<close>: the hardware state of one event.\<close>

record hw_perf_event =
  idx :: int
  config_base :: u32
  config :: u64
  event_base :: u32
  state :: u32
  prev_count :: u64
  sample_period :: u64
  last_period :: u64
  period_left :: s64

text \<open>\<open>struct perf_event\<close>. Pointers to events and to PMUs are addresses (\<open>nat\<close>);
  \<open>sibling_list\<close> is the list headed by a group leader, \<open>event_state\<close> is \<open>event->state\<close>
  (the field name \<open>state\<close> is taken by \<open>hw_perf_event\<close>).\<close>

record perf_event =
  attr :: perf_event_attr
  hw :: hw_perf_event
  pmu :: nat
  group_leader :: nat
  sibling_list :: "nat list"
  event_state :: int
  count :: u64

text \<open>\<open>struct cpu_hw_events\<close>: \<open>events[i]\<close> for \<open>i < ARMPMU_MAX_HWEVENTS\<close> holds the
  address of the event in counter \<open>i\<close> or \<open>None\<close> for \<open>NULL\<close>; the operations below refuse
  to store outside that range. \<open>used_mask\<close> is one 32-bit long. The lock is not modelled:
  the embedding is sequential.\<close>

record cpu_hw_events =
  events :: "nat \<Rightarrow> nat option"
  used_mask :: u32

text \<open>\<open>struct arm_pmu\<close>: the backend operation table and the constants of the PMU. The
  backends (perf_event_v6.c, perf_event_v7.c, perf_event_xscale.c) are separate files
  that the driver includes, so every operation is a parameter. \<open>'hw\<close> is the state of the PMU
  registers. An operation that receives a pointer to an object it may write returns the
  new object: \<open>get_event_idx\<close> returns the index, the counter table and the hardware
  event state it was given pointers to; \<open>set_event_filter\<close> is \<open>None\<close> for a \<open>NULL\<close>
  function pointer.\<close>

record 'hw arm_pmu =
  enable :: "hw_perf_event \<Rightarrow> int \<Rightarrow> 'hw \<Rightarrow> 'hw"
  disable :: "hw_perf_event \<Rightarrow> int \<Rightarrow> 'hw \<Rightarrow> 'hw"
  get_event_idx :: "cpu_hw_events \<Rightarrow> hw_perf_event \<Rightarrow> int \<times> cpu_hw_events \<times> hw_perf_event"
  set_event_filter :: "(hw_perf_event \<Rightarrow> perf_event_attr \<Rightarrow> int \<times> hw_perf_event) option"
  read_counter :: "int \<Rightarrow> 'hw \<Rightarrow> u32 \<times> 'hw"
  write_counter :: "int \<Rightarrow> u32 \<Rightarrow> 'hw \<Rightarrow> 'hw"
  start :: "'hw \<Rightarrow> 'hw"
  stop :: "'hw \<Rightarrow> 'hw"
  map_event :: "perf_event \<Rightarrow> int"
  num_events :: int
  max_period :: u64

section \<open>Event mapping\<close>

text \<open>\<open>armpmu_map_cache_event\<close>. The array bounds \<open>PERF_COUNT_HW_CACHE_MAX\<close>,
  \<open>PERF_COUNT_HW_CACHE_OP_MAX\<close> and \<open>PERF_COUNT_HW_CACHE_RESULT_MAX\<close> come from
  linux/perf_event.h and are parameters, as is the backend's table.\<close>

definition armpmu_map_cache_event ::
  "nat \<Rightarrow> nat \<Rightarrow> nat \<Rightarrow> (nat \<Rightarrow> nat \<Rightarrow> nat \<Rightarrow> u32) \<Rightarrow> u64 \<Rightarrow> int" where
  "armpmu_map_cache_event CACHE_MAX CACHE_OP_MAX CACHE_RESULT_MAX cache_map cfg =
    (let cache_type = unat (drop_bit 0 cfg AND 0xff) in
     if cache_type \<ge> CACHE_MAX then - EINVAL
     else let cache_op = unat (drop_bit 8 cfg AND 0xff) in
     if cache_op \<ge> CACHE_OP_MAX then - EINVAL
     else let cache_result = unat (drop_bit 16 cfg AND 0xff) in
     if cache_result \<ge> CACHE_RESULT_MAX then - EINVAL
     else let ret = cache_map cache_type cache_op cache_result in
     if ret = CACHE_OP_UNSUPPORTED then - ENOENT
     else sint ret)"

section \<open>Period programming and delta accounting\<close>

text \<open>\<open>armpmu_event_set_period(event, hwc, idx)\<close>. In every caller \<open>hwc\<close> is
  \<open>&event->hw\<close>; the function reads \<open>event\<close> only for its PMU, so the model takes the
  two separately and returns the new \<open>*hwc\<close> and the new registers with the result.
  The two tests are two consecutive \<open>if\<close>s. \<open>perf_event_update_userpage\<close> belongs to
  the generic framework and touches nothing modelled here.\<close>

definition armpmu_event_set_period ::
  "(nat \<Rightarrow> 'hw arm_pmu) \<Rightarrow> perf_event \<Rightarrow> hw_perf_event \<Rightarrow> int \<Rightarrow> 'hw
    \<Rightarrow> int \<times> hw_perf_event \<times> 'hw" where
  "armpmu_event_set_period to_arm_pmu event hwc i regs =
    (let armpmu = to_arm_pmu (pmu event);
         left = period_left hwc;
         period = sample_period hwc;
         ret = 0;
         (left, hwc, ret) =
           (if sint left \<le> sint (- period)
            then (period, hwc\<lparr>period_left := period, last_period := period\<rparr>, 1)
            else (left, hwc, ret));
         (left, hwc, ret) =
           (if sint left \<le> 0
            then (left + period, hwc\<lparr>period_left := left + period, last_period := period\<rparr>, 1)
            else (left, hwc, ret));
         left = (if sint left > sint (max_period armpmu) then max_period armpmu else left);
         hwc = hwc\<lparr>prev_count := - left\<rparr>;
         regs = write_counter armpmu i (ucast ((- left) AND 0xffffffff)) regs
     in (ret, hwc, regs))"

text \<open>\<open>armpmu_event_update(event, hwc, idx, overflow)\<close>. The model is sequential: between
  \<open>local64_read\<close> and \<open>local64_cmpxchg\<close> nothing else writes \<open>prev_count\<close>, so the
  compare-and-swap succeeds on the first pass and the \<open>again\<close> loop body runs once.
  All arithmetic is on \<open>u64\<close> and wraps. The result is the masked new raw count, the
  event (its \<open>count\<close> updated), \<open>*hwc\<close> and the registers.\<close>

definition armpmu_event_update ::
  "(nat \<Rightarrow> 'hw arm_pmu) \<Rightarrow> perf_event \<Rightarrow> hw_perf_event \<Rightarrow> int \<Rightarrow> int \<Rightarrow> 'hw
    \<Rightarrow> u64 \<times> perf_event \<times> hw_perf_event \<times> 'hw" where
  "armpmu_event_update to_arm_pmu event hwc i overflow regs =
    (let armpmu = to_arm_pmu (pmu event);
         prev_raw_count = prev_count hwc;
         (v, regs) = read_counter armpmu i regs;
         new_raw_count = (ucast v :: u64);
         hwc = hwc\<lparr>prev_count := new_raw_count\<rparr>;
         new_raw_count = new_raw_count AND max_period armpmu;
         prev_raw_count = prev_raw_count AND max_period armpmu;
         delta = (if overflow \<noteq> 0
                  then max_period armpmu - prev_raw_count + new_raw_count + 1
                  else new_raw_count - prev_raw_count);
         event = event\<lparr>count := count event + delta\<rparr>;
         hwc = hwc\<lparr>period_left := period_left hwc - delta\<rparr>
     in (new_raw_count, event, hwc, regs))"

text \<open>The operations below work on \<open>hwc = &event->hw\<close>; the model writes the new
  \<open>*hwc\<close> back into the event where the C code has updated it in place.\<close>

definition armpmu_read :: "(nat \<Rightarrow> 'hw arm_pmu) \<Rightarrow> perf_event \<Rightarrow> 'hw \<Rightarrow> perf_event \<times> 'hw" where
  "armpmu_read to_arm_pmu event regs =
    (let hwc = hw event in
     if idx hwc < 0 then (event, regs)
     else
       let (r, event, hwc, regs) = armpmu_event_update to_arm_pmu event hwc (idx hwc) 0 regs
       in (event\<lparr>hw := hwc\<rparr>, regs))"

definition armpmu_stop ::
  "(nat \<Rightarrow> 'hw arm_pmu) \<Rightarrow> perf_event \<Rightarrow> u32 \<Rightarrow> 'hw \<Rightarrow> perf_event \<times> 'hw" where
  "armpmu_stop to_arm_pmu event flags regs =
    (let armpmu = to_arm_pmu (pmu event);
         hwc = hw event in
     if state hwc AND PERF_HES_STOPPED = 0 then
       let regs = disable armpmu hwc (idx hwc) regs;
           (r, event, hwc, regs) = armpmu_event_update to_arm_pmu event hwc (idx hwc) 0 regs;
           hwc = hwc\<lparr>state := state hwc OR (PERF_HES_STOPPED OR PERF_HES_UPTODATE)\<rparr>
       in (event\<lparr>hw := hwc\<rparr>, regs)
     else (event, regs))"

text \<open>\<open>armpmu_start\<close>: the \<open>WARN_ON_ONCE\<close> under \<open>PERF_EF_RELOAD\<close> only logs.\<close>

definition armpmu_start ::
  "(nat \<Rightarrow> 'hw arm_pmu) \<Rightarrow> perf_event \<Rightarrow> u32 \<Rightarrow> 'hw \<Rightarrow> perf_event \<times> 'hw" where
  "armpmu_start to_arm_pmu event flags regs =
    (let armpmu = to_arm_pmu (pmu event);
         hwc = hw event;
         hwc = hwc\<lparr>state := 0\<rparr>;
         (r, hwc, regs) = armpmu_event_set_period to_arm_pmu event hwc (idx hwc) regs;
         regs = enable armpmu hwc (idx hwc) regs
     in (event\<lparr>hw := hwc\<rparr>, regs))"

section \<open>Scheduling events onto counters\<close>

text \<open>The state the driver works on: the event objects by address, the per-CPU counter
  tables (\<open>DEFINE_PER_CPU(struct cpu_hw_events, cpu_hw_events)\<close>) and the PMU registers
  of each CPU. An operation runs on one CPU, named by its \<open>cpu\<close> argument;
  \<open>armpmu->get_hw_events()\<close> is that CPU's table (\<open>armpmu_get_cpu_events\<close>).\<close>

record 'hw machine =
  heap :: "nat \<Rightarrow> perf_event"
  percpu :: "nat \<Rightarrow> cpu_hw_events"
  cpu_regs :: "nat \<Rightarrow> 'hw"

text \<open>\<open>armpmu_enable\<close> and \<open>armpmu_disable\<close>, the \<open>pmu_enable\<close> and \<open>pmu_disable\<close>
  callbacks.\<close>

definition armpmu_enable ::
  "'hw arm_pmu \<Rightarrow> (nat \<Rightarrow> perf_event) \<Rightarrow> cpu_hw_events \<Rightarrow> 'hw \<Rightarrow> 'hw" where
  "armpmu_enable armpmu hp cpuc regs =
    (let (enabled, regs) =
       fold (\<lambda>i (enabled, regs).
               case events cpuc i of
                 None \<Rightarrow> (enabled, regs)
               | Some e \<Rightarrow> (True, enable armpmu (hw (hp e)) (int i) regs))
            [0..<nat (num_events armpmu)] (False, regs)
     in if enabled then start armpmu regs else regs)"

definition armpmu_disable :: "'hw arm_pmu \<Rightarrow> 'hw \<Rightarrow> 'hw" where
  "armpmu_disable armpmu regs = stop armpmu regs"

text \<open>Modelled from the spec: \<open>perf_pmu_disable\<close> and \<open>perf_pmu_enable\<close> of the generic
  framework are not among the sources. The spec's "PMU-wide enable/disable bracket that
  suspends all counting on the current CPU's PMU context" is taken as a call of the
  \<open>pmu_disable\<close> callback followed, on every exit path, by a call of \<open>pmu_enable\<close>.\<close>

definition perf_pmu_disable :: "'hw arm_pmu \<Rightarrow> 'hw \<Rightarrow> 'hw" where
  "perf_pmu_disable armpmu regs = armpmu_disable armpmu regs"

definition perf_pmu_enable ::
  "'hw arm_pmu \<Rightarrow> (nat \<Rightarrow> perf_event) \<Rightarrow> cpu_hw_events \<Rightarrow> 'hw \<Rightarrow> 'hw" where
  "perf_pmu_enable armpmu hp cpuc regs = armpmu_enable armpmu hp cpuc regs"

text \<open>\<open>armpmu_del(event, flags)\<close> on CPU \<open>cpu\<close> for the event at address \<open>e\<close>.
  \<open>WARN_ON(idx < 0)\<close> only logs; the store \<open>cpuc->events[idx] = NULL\<close> with an index
  outside the array is undefined behaviour, which the model returns as \<open>None\<close>.
  \<open>hwc->idx\<close> is not written.\<close>

definition armpmu_del ::
  "(nat \<Rightarrow> 'hw arm_pmu) \<Rightarrow> nat \<Rightarrow> nat \<Rightarrow> u32 \<Rightarrow> 'hw machine \<Rightarrow> 'hw machine option" where
  "armpmu_del to_arm_pmu cpu e flags m =
    (let event = heap m e;
         cpuc = percpu m cpu;
         hwc = hw event;
         i = idx hwc
     in if i < 0 \<or> int ARMPMU_MAX_HWEVENTS \<le> i then None
        else
          let (event, regs) = armpmu_stop to_arm_pmu event PERF_EF_UPDATE (cpu_regs m cpu);
              cpuc = cpuc\<lparr>events := (events cpuc)(nat i := None)\<rparr>;
              cpuc = cpuc\<lparr>used_mask := unset_bit (nat i) (used_mask cpuc)\<rparr>
          in Some (m\<lparr>heap := (heap m)(e := event),
                      percpu := (percpu m)(cpu := cpuc),
                      cpu_regs := (cpu_regs m)(cpu := regs)\<rparr>))"

text \<open>\<open>armpmu_add(event, flags)\<close>. The backend's allocator gets pointers to the CPU's
  table and to \<open>event->hw\<close>. A returned index past the array would make the store
  \<open>cpuc->events[idx] = event\<close> undefined behaviour (\<open>None\<close>). The function itself never
  writes \<open>used_mask\<close>.\<close>

definition armpmu_add ::
  "(nat \<Rightarrow> 'hw arm_pmu) \<Rightarrow> nat \<Rightarrow> nat \<Rightarrow> u32 \<Rightarrow> 'hw machine
    \<Rightarrow> (int \<times> 'hw machine) option" where
  "armpmu_add to_arm_pmu cpu e flags m =
    (let event = heap m e;
         armpmu = to_arm_pmu (pmu event);
         cpuc = percpu m cpu;
         hwc = hw event;
         err = 0;
         regs = perf_pmu_disable armpmu (cpu_regs m cpu);
         (i, cpuc, hwc) = get_event_idx armpmu cpuc hwc
     in if i < 0 then
          let event = event\<lparr>hw := hwc\<rparr>;
              hp = (heap m)(e := event);
              regs = perf_pmu_enable armpmu hp cpuc regs
          in Some (i, m\<lparr>heap := hp, percpu := (percpu m)(cpu := cpuc),
                         cpu_regs := (cpu_regs m)(cpu := regs)\<rparr>)
        else if int ARMPMU_MAX_HWEVENTS \<le> i then None
        else
          let hwc = hwc\<lparr>idx := i\<rparr>;
              regs = disable armpmu hwc i regs;
              cpuc = cpuc\<lparr>events := (events cpuc)(nat i := Some e)\<rparr>;
              hwc = hwc\<lparr>state := PERF_HES_STOPPED OR PERF_HES_UPTODATE\<rparr>;
              event = event\<lparr>hw := hwc\<rparr>;
              (event, regs) =
                (if flags AND PERF_EF_START \<noteq> 0
                 then armpmu_start to_arm_pmu event PERF_EF_RELOAD regs
                 else (event, regs));
              hp = (heap m)(e := event);
              regs = perf_pmu_enable armpmu hp cpuc regs
          in Some (err, m\<lparr>heap := hp, percpu := (percpu m)(cpu := cpuc),
                           cpu_regs := (cpu_regs m)(cpu := regs)\<rparr>))"

section \<open>Group validation\<close>

text \<open>\<open>validate_event(cpuc, event)\<close>. Every other function of the driver is a callback
  the framework invokes through \<open>event->pmu\<close>, so its event belongs to this driver; here
  the leader and the siblings of a group are visited, and they may belong to another
  driver's PMU (a software event leading a group, say). \<open>is_arm_pmu p\<close> says that the
  \<open>struct pmu\<close> at address \<open>p\<close> is the \<open>pmu\<close> member of a \<open>struct arm_pmu\<close>.
  \<open>to_arm_pmu(event->pmu)\<close> on line 374 is address arithmetic (\<open>container_of\<close>); the
  call \<open>armpmu->get_event_idx\<close> on line 381 goes through it, and for a \<open>struct pmu\<close>
  of another driver that call is undefined behaviour (\<open>None\<close>).

  \<open>fake_event\<close> is a copy of \<open>event->hw\<close>, and the allocator gets pointers to the
  caller's table and to the copy. The copy dies with the call; the table is the
  caller's. The machine is passed through so that the effect on the real state can be
  stated: nothing in the function stores into it.\<close>

definition validate_event ::
  "(nat \<Rightarrow> bool) \<Rightarrow> (nat \<Rightarrow> 'hw arm_pmu) \<Rightarrow> 'hw machine \<Rightarrow> cpu_hw_events \<Rightarrow> nat
    \<Rightarrow> (int \<times> cpu_hw_events \<times> 'hw machine) option" where
  "validate_event is_arm_pmu to_arm_pmu m cpuc e =
    (let event = heap m e;
         armpmu = to_arm_pmu (pmu event);
         fake_event = hw event;
         leader_pmu = pmu (heap m (group_leader event))
     in if pmu event \<noteq> leader_pmu \<or> event_state event \<le> PERF_EVENT_STATE_OFF
        then Some (1, cpuc, m)
        else if \<not> is_arm_pmu (pmu event) then None
        else
          let (i, cpuc, fake_event) = get_event_idx armpmu cpuc fake_event
          in Some (if 0 \<le> i then 1 else 0, cpuc, m))"

text \<open>The \<open>list_for_each_entry\<close> loop of \<open>validate_group\<close> over the leader's siblings:
  the result is 0 as soon as one sibling fails (the function then returns \<open>-ENOSPC\<close>).\<close>

fun validate_siblings ::
  "(nat \<Rightarrow> bool) \<Rightarrow> (nat \<Rightarrow> 'hw arm_pmu) \<Rightarrow> 'hw machine \<Rightarrow> cpu_hw_events \<Rightarrow> nat list
    \<Rightarrow> (int \<times> cpu_hw_events \<times> 'hw machine) option" where
  "validate_siblings is_arm_pmu to_arm_pmu m cpuc [] = Some (1, cpuc, m)"
| "validate_siblings is_arm_pmu to_arm_pmu m cpuc (sibling # rest) =
    (case validate_event is_arm_pmu to_arm_pmu m cpuc sibling of
       None \<Rightarrow> None
     | Some (ok, cpuc, m) \<Rightarrow>
         if ok = 0 then Some (0, cpuc, m)
         else validate_siblings is_arm_pmu to_arm_pmu m cpuc rest)"

text \<open>\<open>validate_group(event)\<close>; \<open>fake_pmu\<close> is a local table cleared by \<open>memset\<close>.\<close>

definition zeroed_cpu_hw_events :: cpu_hw_events where
  "zeroed_cpu_hw_events = \<lparr>events = (\<lambda>i. None), used_mask = 0\<rparr>"

definition validate_group ::
  "(nat \<Rightarrow> bool) \<Rightarrow> (nat \<Rightarrow> 'hw arm_pmu) \<Rightarrow> 'hw machine \<Rightarrow> nat
    \<Rightarrow> (int \<times> 'hw machine) option" where
  "validate_group is_arm_pmu to_arm_pmu m e =
    (let event = heap m e;
         leader = group_leader event;
         fake_pmu = zeroed_cpu_hw_events
     in case validate_event is_arm_pmu to_arm_pmu m fake_pmu leader of
          None \<Rightarrow> None
        | Some (ok, fake_pmu, m) \<Rightarrow>
            if ok = 0 then Some (- ENOSPC, m)
            else
              (case validate_siblings is_arm_pmu to_arm_pmu m fake_pmu
                      (sibling_list (heap m leader)) of
                 None \<Rightarrow> None
               | Some (ok, fake_pmu, m) \<Rightarrow>
                   if ok = 0 then Some (- ENOSPC, m)
                   else
                     (case validate_event is_arm_pmu to_arm_pmu m fake_pmu e of
                        None \<Rightarrow> None
                      | Some (ok, fake_pmu, m) \<Rightarrow>
                          if ok = 0 then Some (- ENOSPC, m) else Some (0, m))))"

section \<open>Interrupt reservation\<close>

text \<open>The platform device and the behaviour of the interrupt layer, which the driver
  only calls: the number of resources, the number of possible CPUs, the interrupt number
  of each resource (negative when there is none), whether the platform data has a
  \<open>handle_irq\<close> hook, and the results of \<open>irq_set_affinity\<close> (by interrupt and CPU) and
  of \<open>request_irq\<close> (by interrupt); 0 is success.\<close>

record platform_device =
  num_resources :: int
  num_possible_cpus :: int
  platform_get_irq :: "int \<Rightarrow> int"
  plat_handle_irq :: bool
  irq_set_affinity :: "int \<Rightarrow> int \<Rightarrow> int"
  request_irq_result :: "int \<Rightarrow> int"

datatype irq_handler = Armpmu_platform_irq | Backend_handle_irq

datatype plat_call = Reserve_pmu | Release_pmu | Request_irq int irq_handler | Free_irq int

text \<open>What is reserved: \<open>armpmu->active_events\<close>, the CPU mask \<open>armpmu->active_irqs\<close>,
  the lower-level reservation taken by \<open>reserve_pmu\<close>, the interrupts requested and not
  yet freed, and the calls made to the platform so far (latest first).\<close>

record reservation =
  active_events :: int
  active_irqs :: "int set"
  pmu_reserved :: bool
  irqs_held :: "int list"
  calls :: "plat_call list"

text \<open>Modelled from the spec: \<open>reserve_pmu\<close> and \<open>release_pmu\<close> (arch/arm/kernel/pmu.c)
  and \<open>request_irq\<close> and \<open>free_irq\<close> are not among the sources. The spec's "lower-level
  platform reservation" is one exclusive flag, busy when already taken; an interrupt is
  "claimed" by a successful request and "released" by free.\<close>

definition reserve_pmu :: "reservation \<Rightarrow> int \<times> reservation" where
  "reserve_pmu res =
    (if pmu_reserved res then (- EBUSY, res\<lparr>calls := Reserve_pmu # calls res\<rparr>)
     else (0, res\<lparr>pmu_reserved := True, calls := Reserve_pmu # calls res\<rparr>))"

definition release_pmu :: "reservation \<Rightarrow> reservation" where
  "release_pmu res = res\<lparr>pmu_reserved := False, calls := Release_pmu # calls res\<rparr>"

definition request_irq ::
  "platform_device \<Rightarrow> int \<Rightarrow> irq_handler \<Rightarrow> reservation \<Rightarrow> int \<times> reservation" where
  "request_irq pd irq h res =
    (let res = res\<lparr>calls := Request_irq irq h # calls res\<rparr>
     in if request_irq_result pd irq \<noteq> 0 then (request_irq_result pd irq, res)
        else (0, res\<lparr>irqs_held := irq # irqs_held res\<rparr>))"

definition free_irq :: "int \<Rightarrow> reservation \<Rightarrow> reservation" where
  "free_irq irq res =
    res\<lparr>irqs_held := remove1 irq (irqs_held res), calls := Free_irq irq # calls res\<rparr>"

text \<open>\<open>armpmu_release_hardware\<close>: the loop over \<open>i = 0 .. irqs - 1\<close>, then
  \<open>release_pmu\<close>.\<close>

fun release_irqs :: "platform_device \<Rightarrow> int list \<Rightarrow> reservation \<Rightarrow> reservation" where
  "release_irqs pd [] res = res"
| "release_irqs pd (i # rest) res =
    (if i \<notin> active_irqs res then release_irqs pd rest res
     else
       let res = res\<lparr>active_irqs := active_irqs res - {i}\<rparr>;
           irq = platform_get_irq pd i;
           res = (if 0 \<le> irq then free_irq irq res else res)
       in release_irqs pd rest res)"

definition armpmu_release_hardware :: "platform_device \<Rightarrow> reservation \<Rightarrow> reservation" where
  "armpmu_release_hardware pd res =
    (let irqs = min (num_resources pd) (num_possible_cpus pd);
         res = release_irqs pd [0..irqs - 1] res
     in release_pmu res)"

text \<open>\<open>armpmu_reserve_hardware\<close>: the loop, with its two \<open>continue\<close>s and its early
  return after a failed \<open>request_irq\<close>.\<close>

fun reserve_irqs ::
  "platform_device \<Rightarrow> irq_handler \<Rightarrow> int \<Rightarrow> int list \<Rightarrow> reservation
    \<Rightarrow> int \<times> reservation" where
  "reserve_irqs pd h irqs [] res = (0, res)"
| "reserve_irqs pd h irqs (i # rest) res =
    (let irq = platform_get_irq pd i
     in if irq < 0 then reserve_irqs pd h irqs rest res
        else if irq_set_affinity pd irq i \<noteq> 0 \<and> 1 < irqs
        then reserve_irqs pd h irqs rest res
        else
          let (err, res) = request_irq pd irq h res
          in if err \<noteq> 0 then (err, armpmu_release_hardware pd res)
             else reserve_irqs pd h irqs rest
                    (res\<lparr>active_irqs := insert i (active_irqs res)\<rparr>))"

definition armpmu_reserve_hardware ::
  "platform_device \<Rightarrow> reservation \<Rightarrow> int \<times> reservation" where
  "armpmu_reserve_hardware pd res =
    (let (err, res) = reserve_pmu res
     in if err \<noteq> 0 then (err, res)
        else
          let handle_irq =
                (if plat_handle_irq pd then Armpmu_platform_irq else Backend_handle_irq);
              irqs = min (num_resources pd) (num_possible_cpus pd)
          in if irqs < 1 then (- ENODEV, res)
             else reserve_irqs pd handle_irq irqs [0..irqs - 1] res)"

text \<open>\<open>hw_perf_event_destroy\<close>: \<open>atomic_dec_and_mutex_lock\<close> decrements and takes the
  mutex when the count has reached zero.\<close>

definition hw_perf_event_destroy :: "platform_device \<Rightarrow> reservation \<Rightarrow> reservation" where
  "hw_perf_event_destroy pd res =
    (let res = res\<lparr>active_events := active_events res - 1\<rparr>
     in if active_events res = 0 then armpmu_release_hardware pd res else res)"

section \<open>Event initialisation\<close>

definition event_requires_mode_exclusion :: "perf_event_attr \<Rightarrow> bool" where
  "event_requires_mode_exclusion a =
    (exclude_idle a \<or> exclude_user a \<or> exclude_kernel a \<or> exclude_hv a)"

text \<open>\<open>__hw_perf_event_init(event)\<close> for the event at address \<open>e\<close>. The filter is called
  whenever the backend has one (the left operand of \<open>&&\<close>), and may write \<open>*hwc\<close>.
  The result is \<open>None\<close> when group validation has undefined behaviour.\<close>

definition hw_perf_event_init ::
  "(nat \<Rightarrow> bool) \<Rightarrow> (nat \<Rightarrow> 'hw arm_pmu) \<Rightarrow> 'hw machine \<Rightarrow> nat
    \<Rightarrow> (int \<times> 'hw machine) option" where
  "hw_perf_event_init is_arm_pmu to_arm_pmu m e =
    (let event = heap m e;
         armpmu = to_arm_pmu (pmu event);
         hwc = hw event;
         mapping = map_event armpmu event
     in if mapping < 0 then Some (mapping, m)
        else
          let hwc = hwc\<lparr>idx := - 1, config_base := 0, config := 0, event_base := 0\<rparr>;
              (unfiltered, hwc) =
                (case set_event_filter armpmu of
                   None \<Rightarrow> (True, hwc)
                 | Some f \<Rightarrow> (let (r, hwc) = f hwc (attr event) in (r \<noteq> 0, hwc)))
          in if unfiltered \<and> event_requires_mode_exclusion (attr event)
             then Some (- EPERM, m\<lparr>heap := (heap m)(e := event\<lparr>hw := hwc\<rparr>)\<rparr>)
             else
               let hwc = hwc\<lparr>config_base := config_base hwc OR word_of_int mapping\<rparr>;
                   hwc = (if sample_period hwc = 0
                          then hwc\<lparr>sample_period := max_period armpmu,
                                    last_period := max_period armpmu,
                                    period_left := max_period armpmu\<rparr>
                          else hwc);
                   m = m\<lparr>heap := (heap m)(e := event\<lparr>hw := hwc\<rparr>)\<rparr>;
                   err = 0
               in if group_leader event \<noteq> e
                  then
                    (case validate_group is_arm_pmu to_arm_pmu m e of
                       None \<Rightarrow> None
                     | Some (err, m) \<Rightarrow>
                         if err \<noteq> 0 then Some (- EINVAL, m) else Some (err, m))
                  else Some (err, m))"

text \<open>\<open>armpmu_event_init(event)\<close>. \<open>atomic_inc_not_zero\<close> increments a non-zero count;
  otherwise, under the mutex, the hardware is reserved when the count is still zero and
  the count is incremented when that succeeded. \<open>event->destroy\<close> is a callback for the
  framework and is not modelled. The result is \<open>None\<close> when \<open>__hw_perf_event_init\<close>
  has undefined behaviour.\<close>

definition armpmu_event_init ::
  "(nat \<Rightarrow> bool) \<Rightarrow> (nat \<Rightarrow> 'hw arm_pmu) \<Rightarrow> platform_device \<Rightarrow> nat
    \<Rightarrow> 'hw machine \<times> reservation \<Rightarrow> (int \<times> 'hw machine \<times> reservation) option" where
  "armpmu_event_init is_arm_pmu to_arm_pmu pd e s =
    (let (m, res) = s;
         event = heap m e;
         armpmu = to_arm_pmu (pmu event);
         err = 0
     in if map_event armpmu event = - ENOENT then Some (- ENOENT, m, res)
        else
          let (err, res) =
                (if active_events res \<noteq> 0
                 then (err, res\<lparr>active_events := active_events res + 1\<rparr>)
                 else
                   let (err, res) =
                         (if active_events res = 0 then armpmu_reserve_hardware pd res
                          else (err, res));
                       res = (if err = 0 then res\<lparr>active_events := active_events res + 1\<rparr>
                              else res)
                   in (err, res))
          in if err \<noteq> 0 then Some (err, m, res)
             else
               (case hw_perf_event_init is_arm_pmu to_arm_pmu m e of
                  None \<Rightarrow> None
                | Some (err, m) \<Rightarrow>
                    let res = (if err \<noteq> 0 then hw_perf_event_destroy pd res else res)
                    in Some (err, m, res)))"

section \<open>Predicates used in the statements\<close>

text \<open>The backend cannot filter by mode for this event: it has no \<open>set_event_filter\<close>,
  or the call made by \<open>__hw_perf_event_init\<close> (on the hardware state it has just reset)
  returns non-zero.\<close>

definition mode_filter_fails :: "'hw arm_pmu \<Rightarrow> perf_event \<Rightarrow> bool" where
  "mode_filter_fails armpmu event =
    (case set_event_filter armpmu of
       None \<Rightarrow> True
     | Some f \<Rightarrow>
         fst (f ((hw event)\<lparr>idx := - 1, config_base := 0, config := 0, event_base := 0\<rparr>)
                (attr event)) \<noteq> 0)"

section \<open>Sequences of operations\<close>

text \<open>The framework calls the driver one operation at a time. \<open>Init e\<close> is
  \<open>__hw_perf_event_init\<close> on the event at \<open>e\<close>; \<open>Add cpu e flags\<close> and
  \<open>Del cpu e flags\<close> are \<open>armpmu_add\<close> and \<open>armpmu_del\<close> running on \<open>cpu\<close>. The results
  of \<open>Init\<close> and \<open>Add\<close> go back to the framework; the state carries on. A run is \<open>None\<close>
  when an operation has undefined behaviour.\<close>

datatype pmu_op = Init nat | Add nat nat u32 | Del nat nat u32

definition step ::
  "(nat \<Rightarrow> bool) \<Rightarrow> (nat \<Rightarrow> 'hw arm_pmu) \<Rightarrow> pmu_op \<Rightarrow> 'hw machine \<Rightarrow> 'hw machine option" where
  "step is_arm_pmu to_arm_pmu a m =
    (case a of
       Init e \<Rightarrow> map_option snd (hw_perf_event_init is_arm_pmu to_arm_pmu m e)
     | Add cpu e flags \<Rightarrow> map_option snd (armpmu_add to_arm_pmu cpu e flags m)
     | Del cpu e flags \<Rightarrow> armpmu_del to_arm_pmu cpu e flags m)"

fun run ::
  "(nat \<Rightarrow> bool) \<Rightarrow> (nat \<Rightarrow> 'hw arm_pmu) \<Rightarrow> pmu_op list \<Rightarrow> 'hw machine
    \<Rightarrow> 'hw machine option" where
  "run is_arm_pmu to_arm_pmu [] m = Some m"
| "run is_arm_pmu to_arm_pmu (a # rest) m =
    (case step is_arm_pmu to_arm_pmu a m of
       None \<Rightarrow> None
     | Some m' \<Rightarrow> run is_arm_pmu to_arm_pmu rest m')"

text \<open>The state at boot: the per-CPU tables are static, hence zeroed.\<close>

definition boot_machine :: "(nat \<Rightarrow> perf_event) \<Rightarrow> 'hw \<Rightarrow> 'hw machine" where
  "boot_machine hp regs =
    \<lparr>heap = hp, percpu = (\<lambda>cpu. zeroed_cpu_hw_events), cpu_regs = (\<lambda>cpu. regs)\<rparr>"

text \<open>An event occupies a counter slot of a CPU; it is scheduled when it occupies a slot
  of one of the machine's \<open>ncpus\<close> CPUs.\<close>

definition occupies :: "'hw machine \<Rightarrow> nat \<Rightarrow> nat \<Rightarrow> bool" where
  "occupies m cpu e =
    list_ex (\<lambda>i. events (percpu m cpu) i = Some e) [0..<ARMPMU_MAX_HWEVENTS]"

definition scheduled :: "nat \<Rightarrow> 'hw machine \<Rightarrow> nat \<Rightarrow> bool" where
  "scheduled ncpus m e = list_ex (\<lambda>cpu. occupies m cpu e) [0..<ncpus]"

text \<open>The framework's protocol: an event is initialised and added only while it is not
  scheduled, and removed only from the CPU and slot it is scheduled in.\<close>

definition legal :: "nat \<Rightarrow> pmu_op \<Rightarrow> 'hw machine \<Rightarrow> bool" where
  "legal ncpus a m =
    (case a of
       Init e \<Rightarrow> \<not> scheduled ncpus m e
     | Add cpu e flags \<Rightarrow> cpu < ncpus \<and> \<not> scheduled ncpus m e
     | Del cpu e flags \<Rightarrow>
         cpu < ncpus \<and> 0 \<le> idx (hw (heap m e)) \<and>
         events (percpu m cpu) (nat (idx (hw (heap m e)))) = Some e)"

fun legal_run ::
  "nat \<Rightarrow> (nat \<Rightarrow> bool) \<Rightarrow> (nat \<Rightarrow> 'hw arm_pmu) \<Rightarrow> pmu_op list \<Rightarrow> 'hw machine \<Rightarrow> bool" where
  "legal_run ncpus is_arm_pmu to_arm_pmu [] m = True"
| "legal_run ncpus is_arm_pmu to_arm_pmu (a # rest) m =
    (legal ncpus a m \<and>
     (case step is_arm_pmu to_arm_pmu a m of
        None \<Rightarrow> False
      | Some m' \<Rightarrow> legal_run ncpus is_arm_pmu to_arm_pmu rest m'))"

text \<open>The number of set bits of \<open>used_mask\<close> and the number of non-empty entries of
  \<open>events\<close>.\<close>

definition hweight :: "u32 \<Rightarrow> nat" where
  "hweight w = length (filter (bit w) [0..<32])"

definition num_scheduled :: "cpu_hw_events \<Rightarrow> nat" where
  "num_scheduled cpuc = length (filter (\<lambda>i. events cpuc i \<noteq> None) [0..<ARMPMU_MAX_HWEVENTS])"

text \<open>Modelled from the spec: the backends' allocators are not among the sources. The
  contract: \<open>allocate_index\<close> "chooses a free counter" or reports that none is available,
  and \<open>used_mask\<close> is the "bitset mirroring occupancy" in which "a 1 bit for an index
  indicates that the counter is being used" (the comment of \<open>struct cpu_hw_events\<close>).
  So a failing call leaves the mask as it was, a successful one returns an index below
  \<open>num_events\<close> whose bit was clear and sets exactly that bit, and neither touches
  \<open>events\<close> or the event's hardware state.\<close>

definition allocator_ok :: "'hw arm_pmu \<Rightarrow> bool" where
  "allocator_ok armpmu =
    (\<forall>cpuc hwc.
       case get_event_idx armpmu cpuc hwc of
         (i, cpuc', hwc') \<Rightarrow>
           events cpuc' = events cpuc \<and> hwc' = hwc \<and>
           (if i < 0 then used_mask cpuc' = used_mask cpuc
            else i < num_events armpmu \<and> \<not> bit (used_mask cpuc) (nat i) \<and>
                 used_mask cpuc' = set_bit (nat i) (used_mask cpuc)))"

text \<open>The filter, when the backend has one, leaves \<open>hwc->idx\<close> alone.\<close>

definition filter_keeps_idx :: "'hw arm_pmu \<Rightarrow> bool" where
  "filter_keeps_idx armpmu =
    (case set_event_filter armpmu of
       None \<Rightarrow> True
     | Some f \<Rightarrow> \<forall>hwc a. idx (snd (f hwc a)) = idx hwc)"

text \<open>Two invariants of the counter tables. A table is consistent for \<open>n\<close> counters when
  each of its 32 mask bits is set exactly if the slot holds an event, and only below
  \<open>n\<close>. The slots of the first \<open>ncpus\<close> CPUs agree with the events when every event held
  in a slot has that slot as its \<open>hwc->idx\<close>.\<close>

definition table_consistent :: "int \<Rightarrow> cpu_hw_events \<Rightarrow> bool" where
  "table_consistent n cpuc =
    list_all (\<lambda>i. (bit (used_mask cpuc) i \<longleftrightarrow> events cpuc i \<noteq> None)
                  \<and> (bit (used_mask cpuc) i \<longrightarrow> int i < n))
             [0..<ARMPMU_MAX_HWEVENTS]"

definition slots_agree :: "nat \<Rightarrow> 'hw machine \<Rightarrow> bool" where
  "slots_agree ncpus m =
    list_all (\<lambda>cpu. list_all (\<lambda>i. case events (percpu m cpu) i of
                                      None \<Rightarrow> True
                                    | Some e \<Rightarrow> idx (hw (heap m e)) = int i)
                             [0..<ARMPMU_MAX_HWEVENTS])
             [0..<ncpus]"

section \<open>A reference backend\<close>

text \<open>Modelled from the spec: a backend with \<open>n\<close> interchangeable counters, to run the
  driver on. Its registers are the counter values, the per-counter enable bits and the
  global enable. \<open>allocate_index\<close> takes the lowest free counter and marks it in
  \<open>used_mask\<close>, or fails with NoSpace; \<open>map_event\<close> accepts raw events
  (\<open>PERF_TYPE_RAW = 4\<close>) through \<open>armpmu_map_raw_event\<close> and answers NotSupported
  otherwise.\<close>

record pmu_regs =
  counter :: "int \<Rightarrow> u32"
  counter_on :: "int \<Rightarrow> bool"
  counting :: bool

definition armpmu_map_raw_event :: "u32 \<Rightarrow> u64 \<Rightarrow> int" where
  "armpmu_map_raw_event raw_event_mask cfg = sint (ucast (cfg AND ucast raw_event_mask) :: u32)"

definition ref_get_event_idx ::
  "int \<Rightarrow> cpu_hw_events \<Rightarrow> hw_perf_event \<Rightarrow> int \<times> cpu_hw_events \<times> hw_perf_event" where
  "ref_get_event_idx n cpuc hwc =
    (case find (\<lambda>i. \<not> bit (used_mask cpuc) i) [0..<nat n] of
       None \<Rightarrow> (- ENOSPC, cpuc, hwc)
     | Some i \<Rightarrow> (int i, cpuc\<lparr>used_mask := set_bit i (used_mask cpuc)\<rparr>, hwc))"

definition ref_pmu ::
  "int \<Rightarrow> (hw_perf_event \<Rightarrow> perf_event_attr \<Rightarrow> int \<times> hw_perf_event) option
    \<Rightarrow> pmu_regs arm_pmu" where
  "ref_pmu n flt =
    \<lparr>enable = (\<lambda>hwc i regs. regs\<lparr>counter_on := (counter_on regs)(i := True)\<rparr>),
     disable = (\<lambda>hwc i regs. regs\<lparr>counter_on := (counter_on regs)(i := False)\<rparr>),
     get_event_idx = ref_get_event_idx n,
     set_event_filter = flt,
     read_counter = (\<lambda>i regs. (counter regs i, regs)),
     write_counter = (\<lambda>i v regs. regs\<lparr>counter := (counter regs)(i := v)\<rparr>),
     start = (\<lambda>regs. regs\<lparr>counting := True\<rparr>),
     stop = (\<lambda>regs. regs\<lparr>counting := False\<rparr>),
     map_event = (\<lambda>event. if attr_type (attr event) = 4
                           then armpmu_map_raw_event 0xFF (attr_config (attr event))
                           else - ENOENT),
     num_events = n,
     max_period = 0xffffffff\<rparr>"

text \<open>Concrete events, registers and platforms for the examples below: a raw event as
  the framework allocates it (zeroed hardware state, inactive, on the \<open>struct pmu\<close> at
  address 0), a machine of events that each lead their own group, and a machine in which
  the event at address 1 leads a group with the sibling at 2 and every other event names
  1 as its leader. In the examples the \<open>struct pmu\<close> at address 0 is the driver's and
  every other one belongs to another driver.\<close>

definition only_pmu_0 :: "nat \<Rightarrow> bool" where
  "only_pmu_0 p = (p = 0)"

definition raw_attr :: perf_event_attr where
  "raw_attr = \<lparr>attr_type = 4, attr_config = 0x11, exclude_user = False,
     exclude_kernel = False, exclude_hv = False, exclude_idle = False\<rparr>"

definition zero_hwc :: hw_perf_event where
  "zero_hwc = \<lparr>idx = 0, config_base = 0, config = 0, event_base = 0, state = 0,
     prev_count = 0, sample_period = 0, last_period = 0, period_left = 0\<rparr>"

definition raw_event :: "nat \<Rightarrow> nat list \<Rightarrow> perf_event" where
  "raw_event leader sibs = \<lparr>attr = raw_attr, hw = zero_hwc, pmu = 0, group_leader = leader,
     sibling_list = sibs, event_state = 0, count = 0\<rparr>"

definition zero_regs :: pmu_regs where
  "zero_regs = \<lparr>counter = (\<lambda>i. 0), counter_on = (\<lambda>i. False), counting = False\<rparr>"

definition solo_machine :: "pmu_regs machine" where
  "solo_machine = boot_machine (\<lambda>a. raw_event a []) zero_regs"

definition group_machine :: "pmu_regs machine" where
  "group_machine =
     boot_machine (\<lambda>a. if a = 1 then raw_event 1 [2] else raw_event 1 []) zero_regs"

text \<open>The same group led by an event of another driver's PMU (the \<open>struct pmu\<close> at
  address 1), enabled: a hardware event at 3 joins a group whose leader at 1 is, say, a
  software event.\<close>

definition foreign_led_machine :: "pmu_regs machine" where
  "foreign_led_machine =
     group_machine\<lparr>heap := (heap group_machine)(1 := (raw_event 1 [2])\<lparr>pmu := 1\<rparr>)\<rparr>"

text \<open>The group led by the hardware event at 1, with the sibling at 2 on the other PMU.\<close>

definition foreign_sibling_machine :: "pmu_regs machine" where
  "foreign_sibling_machine =
     group_machine\<lparr>heap := (heap group_machine)(2 := (raw_event 1 [])\<lparr>pmu := 1\<rparr>)\<rparr>"

text \<open>A machine of events that ask for user-mode exclusion.\<close>

definition excl_machine :: "pmu_regs machine" where
  "excl_machine =
     boot_machine (\<lambda>a. (raw_event a [])\<lparr>attr := raw_attr\<lparr>exclude_user := True\<rparr>\<rparr>) zero_regs"

definition one_irq_platform :: platform_device where
  "one_irq_platform = \<lparr>num_resources = 1, num_possible_cpus = 1,
     platform_get_irq = (\<lambda>i. 5 + i), plat_handle_irq = False,
     irq_set_affinity = (\<lambda>irq cpu. 0), request_irq_result = (\<lambda>irq. 0)\<rparr>"

text \<open>A platform device registered without any interrupt resource, and one whose second
  interrupt cannot be requested.\<close>

definition no_irq_platform :: platform_device where
  "no_irq_platform = one_irq_platform\<lparr>num_resources := 0\<rparr>"

definition second_irq_busy_platform :: platform_device where
  "second_irq_busy_platform = one_irq_platform\<lparr>num_resources := 2, num_possible_cpus := 2,
     request_irq_result := (\<lambda>irq. if irq = 6 then - EBUSY else 0)\<rparr>"

definition nothing_reserved :: reservation where
  "nothing_reserved = \<lparr>active_events = 0, active_irqs = {}, pmu_reserved = False,
     irqs_held = [], calls = []\<rparr>"

section \<open>Properties\<close>

lemmas errno_defs = EPERM_def ENOENT_def EBUSY_def ENODEV_def EINVAL_def ENOSPC_def

lemmas flag_defs = PERF_HES_STOPPED_def PERF_HES_UPTODATE_def PERF_EF_START_def
  PERF_EF_RELOAD_def PERF_EF_UPDATE_def PERF_EVENT_STATE_OFF_def

subsection \<open>Word arithmetic used below\<close>

lemma and_ff_take_bit: "(x::u64) AND 0xff = take_bit 8 x"
  by (simp add: take_bit_eq_mask mask_eq_exp_minus_1)

lemma unat_and_ff: "unat ((x::u64) AND 0xff) = unat x mod 256"
  unfolding and_ff_take_bit unsigned_take_bit_eq by (simp add: take_bit_eq_mod)

lemma unat_drop_and_ff: "unat (drop_bit n (x::u64) AND 0xff) = unat x div 2 ^ n mod 256"
  unfolding and_ff_take_bit unsigned_take_bit_eq unat_drop_bit_eq
  by (simp add: take_bit_eq_mod drop_bit_eq_div)

lemma sint_uminus_nonneg: "0 \<le> sint (p::64 word) \<Longrightarrow> sint (- p) = - sint p"
  using sint_lt [of p] by (simp add: sint_word_minus signed_take_bit_int_eq_self)

lemma sint_add_small:
  "sint (l::64 word) \<le> 0 \<Longrightarrow> - sint p < sint l \<Longrightarrow> sint (l + p) = sint l + sint p"
  using sint_lt [of p] sint_ge [of l] by (simp add: sint_word_add signed_take_bit_int_eq_self)

lemma ucast_low32: "(ucast ((x::64 word) AND 0xffffffff) :: 32 word) = ucast x"
proof -
  have "(0xffffffff :: 64 word) = mask 32" by (simp add: mask_eq_exp_minus_1)
  then show ?thesis
    by (simp add: bit_eq_iff bit_simps)
qed

subsection \<open>Cache-event mapping\<close>

text \<open>
  C9. \<open>armpmu_map_cache_event\<close> reads the low 8 bits of the 64-bit config as the cache
  type, the next 8 bits as the cache operation and the next 8 bits as the cache result.
  If any of the three is not below its enumerated maximum the result is \<open>-EINVAL\<close>
  (InvalidArgument); otherwise exactly that triple is looked up in the backend's cache
  map (an entry \<open>CACHE_OP_UNSUPPORTED\<close> gives \<open>-ENOENT\<close>, any other entry is returned).
\<close>

theorem map_cache_event_decodes:
  "armpmu_map_cache_event tmax omax rmax cache_map cfg =
    (let cache_type = unat cfg mod 256;
         cache_op = unat cfg div 256 mod 256;
         cache_result = unat cfg div 65536 mod 256
     in if tmax \<le> cache_type \<or> omax \<le> cache_op \<or> rmax \<le> cache_result then - EINVAL
        else if cache_map cache_type cache_op cache_result = CACHE_OP_UNSUPPORTED then - ENOENT
        else sint (cache_map cache_type cache_op cache_result))"
  using unat_drop_and_ff [of 8 cfg] unat_drop_and_ff [of 16 cfg]
  by (simp add: armpmu_map_cache_event_def Let_def unat_and_ff)

text \<open>With the bounds 7, 3 and 2 of linux/perf_event.h: the config \<open>0x000201\<close> is the
  triple (type 1, operation 2, result 0) and is looked up as such; type 255 is refused.\<close>

theorem map_cache_event_decodes_witness:
  "armpmu_map_cache_event 7 3 2
      (\<lambda>t p r. if (t, p, r) = (1, 2, 0) then 0x42 else CACHE_OP_UNSUPPORTED) 0x000201 = 0x42
   \<and> armpmu_map_cache_event 7 3 2 (\<lambda>t p r. 0x42) 0xff = - EINVAL"
  using map_cache_event_decodes
          [of 7 3 2 "\<lambda>t p r. if (t, p, r) = (1, 2, 0) then 0x42 else CACHE_OP_UNSUPPORTED" "0x000201"]
        map_cache_event_decodes [of 7 3 2 "\<lambda>t p r. 0x42" "0xff"]
  by (simp add: Let_def CACHE_OP_UNSUPPORTED_def)

subsection \<open>Delta accounting\<close>

text \<open>
  C3. \<open>armpmu_event_update\<close>, with \<open>prev\<close> the previous shadow value and \<open>new\<close> the
  counter value just read, both masked with \<open>max_period\<close>: the delta is
  \<open>max_period - prev + new + 1\<close> when the overflow flag is set and \<open>new - prev\<close>
  otherwise (64-bit unsigned arithmetic). The delta is added to the event's 64-bit count
  and subtracted from \<open>period_left\<close>; the shadow value becomes the value read. In
  particular \<open>prev = max_period - 10\<close>, \<open>new = 5\<close> with the flag set give the delta 16.
\<close>

theorem event_update_delta:
  assumes "read_counter (to_arm_pmu (pmu event)) i regs = (v, regs')"
  shows "let mp = max_period (to_arm_pmu (pmu event));
             prev = prev_count hwc AND mp;
             new = ucast v AND mp;
             delta = (if overflow \<noteq> 0 then mp - prev + new + 1 else new - prev)
         in armpmu_event_update to_arm_pmu event hwc i overflow regs =
              (new, event\<lparr>count := count event + delta\<rparr>,
               hwc\<lparr>prev_count := ucast v, period_left := period_left hwc - delta\<rparr>, regs')
            \<and> (overflow \<noteq> 0 \<and> prev = mp - 10 \<and> new = 5 \<longrightarrow> delta = 16)"
  using assms by (simp add: armpmu_event_update_def Let_def)

text \<open>On the reference backend (\<open>max_period = 0xffffffff\<close>): shadow value
  \<open>max_period - 10\<close>, counter at 5, overflow flag set.\<close>

theorem event_update_delta_witness:
  "armpmu_event_update (\<lambda>p. ref_pmu 2 None) (raw_event 7 [])
      (zero_hwc\<lparr>prev_count := 0xffffffff - 10\<rparr>) 0 1 (zero_regs\<lparr>counter := (\<lambda>i. 5)\<rparr>)
    = (5, (raw_event 7 [])\<lparr>count := 16\<rparr>,
       zero_hwc\<lparr>prev_count := 5, period_left := - 16\<rparr>, zero_regs\<lparr>counter := (\<lambda>i. 5)\<rparr>)"
  using event_update_delta [of "\<lambda>p. ref_pmu 2 None" "raw_event 7 []" 0
          "zero_regs\<lparr>counter := (\<lambda>i. 5)\<rparr>" 5 "zero_regs\<lparr>counter := (\<lambda>i. 5)\<rparr>"
          "zero_hwc\<lparr>prev_count := 0xffffffff - 10\<rparr>" 1]
  by (simp add: Let_def ref_pmu_def raw_event_def zero_hwc_def)

subsection \<open>Reading an unscheduled event\<close>

text \<open>
  C10. For an event whose \<open>hwc->idx\<close> is negative \<open>armpmu_read\<close> does nothing: no
  counter is read (the registers are as before) and the event, with its count, shadow
  value and period state, is unchanged.
\<close>

theorem read_unassigned_noop:
  "idx (hw event) < 0 \<Longrightarrow> armpmu_read to_arm_pmu event regs = (event, regs)"
  by (simp add: armpmu_read_def)

theorem read_unassigned_noop_witness:
  "armpmu_read (\<lambda>p. ref_pmu 2 None) ((raw_event 7 [])\<lparr>hw := zero_hwc\<lparr>idx := - 1\<rparr>\<rparr>)
      (zero_regs\<lparr>counter := (\<lambda>i. 5)\<rparr>)
    = ((raw_event 7 [])\<lparr>hw := zero_hwc\<lparr>idx := - 1\<rparr>\<rparr>, zero_regs\<lparr>counter := (\<lambda>i. 5)\<rparr>)"
  using read_unassigned_noop [of "(raw_event 7 [])\<lparr>hw := zero_hwc\<lparr>idx := - 1\<rparr>\<rparr>"
          "\<lambda>p. ref_pmu 2 None" "zero_regs\<lparr>counter := (\<lambda>i. 5)\<rparr>"]
  by simp
subsection \<open>Period programming\<close>

text \<open>
  C4 (as amended). \<open>armpmu_event_set_period\<close> with a sample period \<open>P \<ge> 0\<close> (read as a
  signed 64-bit value) and \<open>L = period_left\<close>: if \<open>L \<le> -P\<close> then \<open>period_left\<close> becomes
  \<open>P\<close>, else if \<open>L \<le> 0\<close> then \<open>P\<close> is added to it; in both cases \<open>last_period\<close> becomes
  \<open>P\<close> and the result is 1 ("changed"), otherwise it is 0 and \<open>period_left\<close> stays. The
  new \<open>period_left\<close>, clamped to at most \<open>max_period\<close> (signed comparison), is negated
  and written, truncated to the 32 bits of the counter, to the hardware register; the
  64-bit negation becomes the shadow value. The stored \<open>period_left\<close> is not clamped.
\<close>

theorem set_period_programs:
  assumes "0 \<le> sint (sample_period hwc)"
  shows "let armpmu = to_arm_pmu (pmu event);
             L = period_left hwc; P = sample_period hwc;
             changed = (sint L \<le> 0);
             L' = (if sint L \<le> - sint P then P else if sint L \<le> 0 then L + P else L);
             programmed = (if sint (max_period armpmu) < sint L' then max_period armpmu else L')
         in armpmu_event_set_period to_arm_pmu event hwc i regs =
              (if changed then 1 else 0,
               (if changed then hwc\<lparr>period_left := L', last_period := P\<rparr> else hwc)
                  \<lparr>prev_count := - programmed\<rparr>,
               write_counter armpmu i (ucast (- programmed)) regs)
            \<and> sint L' = (if sint L \<le> - sint P then sint P
                          else if sint L \<le> 0 then sint L + sint P else sint L)"
proof -
  let ?L = "period_left hwc" and ?P = "sample_period hwc"
  have m: "sint (- ?P) = - sint ?P" using assms by (rule sint_uminus_nonneg)
  consider (stale) "sint ?L \<le> - sint ?P" | (due) "- sint ?P < sint ?L" "sint ?L \<le> 0"
    | (running) "0 < sint ?L"
    by linarith
  then show ?thesis
  proof cases
    case stale
    show ?thesis
    proof (cases "?P = 0")
      case True
      with stale show ?thesis
        by (simp add: armpmu_event_set_period_def Let_def ucast_low32)
    next
      case False
      moreover have "sint ?P = 0 \<longleftrightarrow> ?P = 0" by (rule signed_eq_0_iff)
      ultimately have "0 < sint ?P" using assms by linarith
      with stale m show ?thesis
        by (simp add: armpmu_event_set_period_def Let_def ucast_low32)
    qed
  next
    case due
    with m sint_add_small [of ?L ?P] show ?thesis
      by (simp add: armpmu_event_set_period_def Let_def ucast_low32)
  next
    case running
    with m assms show ?thesis
      by (simp add: armpmu_event_set_period_def Let_def ucast_low32)
  qed
qed

text \<open>\<open>period_left = 0\<close>, \<open>P = 1000\<close> on the reference backend: the call returns 1,
  leaves \<open>period_left = 1000\<close> and programs counter 0 with \<open>-1000\<close> modulo \<open>2^32\<close>.\<close>

theorem set_period_programs_witness:
  "armpmu_event_set_period (\<lambda>p. ref_pmu 2 None) (raw_event 7 [])
      (zero_hwc\<lparr>sample_period := 1000\<rparr>) 0 zero_regs
    = (1, zero_hwc\<lparr>sample_period := 1000, period_left := 1000, last_period := 1000,
                    prev_count := - 1000\<rparr>,
       zero_regs\<lparr>counter := (counter zero_regs)(0 := 0xFFFFFC18)\<rparr>)
   \<and> unat (0xFFFFFC18 :: u32) = 2 ^ 32 - 1000"
proof -
  have trunc: "(18446744073709550616 :: u32) = 4294966296" by simp
  show ?thesis
    using set_period_programs [of "zero_hwc\<lparr>sample_period := 1000\<rparr>" "\<lambda>p. ref_pmu 2 None"
            "raw_event 7 []" 0 zero_regs]
    by (simp add: Let_def ref_pmu_def zero_hwc_def trunc)
qed

text \<open>The claim as written fails for a negative period, which the two consecutive tests
  treat twice: with \<open>period_left = 0\<close> and \<open>P = -5\<close> the first test holds
  (\<open>0 \<le> 5\<close>), yet \<open>period_left\<close> ends as \<open>-10\<close>, not as \<open>P\<close>.\<close>

theorem set_period_negative_period_counterexample:
  "sint (period_left (zero_hwc\<lparr>sample_period := - 5\<rparr>))
      \<le> - sint (sample_period (zero_hwc\<lparr>sample_period := - 5\<rparr>))
   \<and> period_left (fst (snd (armpmu_event_set_period (\<lambda>p. ref_pmu 2 None) (raw_event 7 [])
        (zero_hwc\<lparr>sample_period := - 5\<rparr>) 0 zero_regs))) = - 10
   \<and> (- 10 :: s64) \<noteq> sample_period (zero_hwc\<lparr>sample_period := - 5\<rparr>)"
  by (simp add: armpmu_event_set_period_def Let_def ref_pmu_def zero_hwc_def)

subsection \<open>Group validation\<close>

lemma validate_event_frame:
  "validate_event is_arm_pmu to_arm_pmu m cpuc e = Some (ok, c, m') \<Longrightarrow> m' = m"
  by (auto simp add: validate_event_def Let_def case_prod_beta split: if_splits)

lemma validate_siblings_frame:
  "validate_siblings is_arm_pmu to_arm_pmu m cpuc es = Some (ok, c, m') \<Longrightarrow> m' = m"
proof (induction es arbitrary: cpuc)
  case Nil
  then show ?case by simp
next
  case (Cons a es)
  then show ?case
    by (auto split: option.splits if_splits dest: validate_event_frame)
qed

lemma validate_group_frame:
  "validate_group is_arm_pmu to_arm_pmu m e = Some (r, m') \<Longrightarrow> m' = m"
  by (auto simp add: validate_group_def Let_def split: option.splits if_splits
        dest!: validate_event_frame validate_siblings_frame)


text \<open>
  C5. The claim has group validation treat a member that belongs to a different backend
  as trivially valid, and leave the real state alone for every input. The code makes the
  test of line 378 against the PMU of the member's own group leader, so it is never
  true of a leader: for an enabled leader that leads itself and belongs to another
  driver's PMU, \<open>validate_event\<close> goes on to call \<open>get_event_idx\<close> through
  \<open>to_arm_pmu\<close> of a \<open>struct pmu\<close> that is not inside a \<open>struct arm_pmu\<close>, and
  \<open>validate_group\<close> of any event of that group has undefined behaviour. (For a sibling
  or the event under test on another PMU than the leader's the same test does return 1.)
\<close>

theorem foreign_leader_not_trivially_valid:
  assumes "group_leader (heap m e) = l" and "group_leader (heap m l) = l"
    and "PERF_EVENT_STATE_OFF < event_state (heap m l)"
    and "\<not> is_arm_pmu (pmu (heap m l))"
  shows "validate_event is_arm_pmu to_arm_pmu m cpuc l = None
         \<and> validate_group is_arm_pmu to_arm_pmu m e = None"
  using assms by (simp add: validate_group_def validate_event_def Let_def)

text \<open>A hardware event at address 3 on the driver's PMU joins the group led by the
  enabled event at address 1, which belongs to the PMU at address 1: the leader's backend
  differs from that of the event being validated, and the validation is undefined. In
  the group led by a hardware event, a sibling on the other PMU is passed as valid
  without the scratch table being touched.\<close>

theorem foreign_leader_not_trivially_valid_witness:
  "pmu (heap foreign_led_machine 1) \<noteq> pmu (heap foreign_led_machine 3)
   \<and> only_pmu_0 (pmu (heap foreign_led_machine 3))
   \<and> validate_event only_pmu_0 (\<lambda>p. ref_pmu 2 None) foreign_led_machine
         zeroed_cpu_hw_events 1 = None
   \<and> validate_group only_pmu_0 (\<lambda>p. ref_pmu 2 None) foreign_led_machine 3 = None
   \<and> validate_event only_pmu_0 (\<lambda>p. ref_pmu 2 None) foreign_sibling_machine
         zeroed_cpu_hw_events 2 = Some (1, zeroed_cpu_hw_events, foreign_sibling_machine)"
proof -
  have l3: "group_leader (heap foreign_led_machine 3) = 1"
    and l1: "group_leader (heap foreign_led_machine 1) = 1"
    and on: "PERF_EVENT_STATE_OFF < event_state (heap foreign_led_machine 1)"
    and foreign: "\<not> only_pmu_0 (pmu (heap foreign_led_machine 1))"
    and own: "only_pmu_0 (pmu (heap foreign_led_machine 3))"
    by (simp_all add: foreign_led_machine_def group_machine_def boot_machine_def
          raw_event_def only_pmu_0_def PERF_EVENT_STATE_OFF_def)
  have differ: "pmu (heap foreign_led_machine 1) \<noteq> pmu (heap foreign_led_machine 3)"
    by (simp add: foreign_led_machine_def group_machine_def boot_machine_def raw_event_def)
  have sib: "validate_event only_pmu_0 (\<lambda>p. ref_pmu 2 None) foreign_sibling_machine
         zeroed_cpu_hw_events 2 = Some (1, zeroed_cpu_hw_events, foreign_sibling_machine)"
    by (simp add: validate_event_def Let_def foreign_sibling_machine_def group_machine_def
          boot_machine_def raw_event_def)
  show ?thesis
    using foreign_leader_not_trivially_valid
            [where m = foreign_led_machine and e = 3 and l = 1 and is_arm_pmu = only_pmu_0
               and to_arm_pmu = "\<lambda>p. ref_pmu 2 None" and cpuc = zeroed_cpu_hw_events]
          l3 l1 on foreign own differ sib
    by simp
qed


subsection \<open>Event initialisation\<close>






subsection \<open>Reservation bookkeeping\<close>

lemma release_irqs_active_events [simp]:
  "active_events (release_irqs pd xs res) = active_events res"
  by (induction xs arbitrary: res) (simp_all add: Let_def free_irq_def)

lemma release_hardware_active_events [simp]:
  "active_events (armpmu_release_hardware pd res) = active_events res"
  by (simp add: armpmu_release_hardware_def Let_def release_pmu_def)

lemma reserve_irqs_active_events [simp]:
  "active_events (snd (reserve_irqs pd h n xs res)) = active_events res"
  by (induction xs arbitrary: res) (simp_all add: Let_def request_irq_def)

lemma reserve_hardware_active_events [simp]:
  "active_events (snd (armpmu_reserve_hardware pd res)) = active_events res"
  by (simp add: armpmu_reserve_hardware_def Let_def reserve_pmu_def)

lemma active_events_same: "active_events r = n \<Longrightarrow> r\<lparr>active_events := n\<rparr> = r"
  by (cases r) auto

lemma hw_perf_event_init_eperm:
  assumes "event_requires_mode_exclusion (attr (heap m e))"
    and "mode_filter_fails (to_arm_pmu (pmu (heap m e))) (heap m e)"
    and "0 \<le> map_event (to_arm_pmu (pmu (heap m e))) (heap m e)"
  shows "\<exists>m'. hw_perf_event_init is_arm_pmu to_arm_pmu m e = Some (- EPERM, m')"
proof (cases "set_event_filter (to_arm_pmu (pmu (heap m e)))")
  case None
  with assms show ?thesis
    by (simp add: hw_perf_event_init_def mode_filter_fails_def Let_def case_prod_beta)
next
  case (Some f)
  with assms show ?thesis
    by (simp add: hw_perf_event_init_def mode_filter_fails_def Let_def case_prod_beta)
qed

text \<open>
  C7 (as amended). For an event descriptor that requests privilege-mode exclusion on a
  backend that has no mode filter or whose filter call fails, \<open>__hw_perf_event_init\<close>
  fails with \<open>-EPERM\<close> (PermissionDenied) whenever the backend maps the event. Event
  creation (\<open>armpmu_event_init\<close>) reaches that check only after the hardware has been
  reserved: with events already active it returns \<open>-EPERM\<close> and restores the
  reservation state; with none active it first runs \<open>armpmu_reserve_hardware\<close>, returns
  that call's error if it fails, and otherwise returns \<open>-EPERM\<close> after releasing the
  hardware it has just reserved.
\<close>

theorem mode_exclusion_denied:
  assumes "event_requires_mode_exclusion (attr (heap m e))"
    and "mode_filter_fails (to_arm_pmu (pmu (heap m e))) (heap m e)"
    and "0 \<le> map_event (to_arm_pmu (pmu (heap m e))) (heap m e)"
  shows "\<exists>m'. hw_perf_event_init is_arm_pmu to_arm_pmu m e = Some (- EPERM, m')
    \<and> armpmu_event_init is_arm_pmu to_arm_pmu pd e (m, res) =
        Some (if active_events res \<noteq> 0
              then (- EPERM, m', res)
              else if fst (armpmu_reserve_hardware pd res) \<noteq> 0
              then (fst (armpmu_reserve_hardware pd res), m,
                    snd (armpmu_reserve_hardware pd res))
              else (- EPERM, m',
                    armpmu_release_hardware pd (snd (armpmu_reserve_hardware pd res))))"
proof -
  obtain m' where denied: "hw_perf_event_init is_arm_pmu to_arm_pmu m e = Some (- EPERM, m')"
    using hw_perf_event_init_eperm
            [where m = m and e = e and to_arm_pmu = to_arm_pmu and is_arm_pmu = is_arm_pmu]
          assms
    by blast
  have found: "map_event (to_arm_pmu (pmu (heap m e))) (heap m e) \<noteq> - ENOENT"
    using assms(3) by (simp add: ENOENT_def)
  have "armpmu_event_init is_arm_pmu to_arm_pmu pd e (m, res) =
        Some (if active_events res \<noteq> 0
              then (- EPERM, m', res)
              else if fst (armpmu_reserve_hardware pd res) \<noteq> 0
              then (fst (armpmu_reserve_hardware pd res), m,
                    snd (armpmu_reserve_hardware pd res))
              else (- EPERM, m',
                    armpmu_release_hardware pd (snd (armpmu_reserve_hardware pd res))))"
  proof (cases "active_events res = 0")
    case False
    with denied found show ?thesis
      by (simp add: armpmu_event_init_def Let_def case_prod_beta hw_perf_event_destroy_def
            EPERM_def)
  next
    case True
    then have same: "(snd (armpmu_reserve_hardware pd res))\<lparr>active_events := 0\<rparr>
                 = snd (armpmu_reserve_hardware pd res)"
      by (simp add: active_events_same)
    from True denied found show ?thesis
      by (simp add: armpmu_event_init_def Let_def case_prod_beta hw_perf_event_destroy_def
            EPERM_def same)
  qed
  with denied show ?thesis by blast
qed

text \<open>An event asking for user-mode exclusion on the reference backend without a filter,
  on a platform with one interrupt: creation fails with \<open>-EPERM\<close>, both when an event
  is already active and when none is, and afterwards nothing is held.\<close>

theorem mode_exclusion_denied_witness:
  "\<exists>m'. hw_perf_event_init only_pmu_0 (\<lambda>p. ref_pmu 2 None) excl_machine 7
          = Some (- EPERM, m')
     \<and> armpmu_event_init only_pmu_0 (\<lambda>p. ref_pmu 2 None) one_irq_platform 7
          (excl_machine, nothing_reserved\<lparr>active_events := 1\<rparr>)
         = Some (- EPERM, m', nothing_reserved\<lparr>active_events := 1\<rparr>)
     \<and> armpmu_event_init only_pmu_0 (\<lambda>p. ref_pmu 2 None) one_irq_platform 7
          (excl_machine, nothing_reserved)
         = Some (- EPERM, m',
                 armpmu_release_hardware one_irq_platform
                   (snd (armpmu_reserve_hardware one_irq_platform nothing_reserved)))
     \<and> irqs_held (armpmu_release_hardware one_irq_platform
          (snd (armpmu_reserve_hardware one_irq_platform nothing_reserved))) = []"
proof -
  have excl: "event_requires_mode_exclusion (attr (heap excl_machine 7))"
    by (simp add: excl_machine_def boot_machine_def raw_event_def raw_attr_def
          event_requires_mode_exclusion_def)
  have nofilter: "mode_filter_fails ((\<lambda>p. ref_pmu 2 None) (pmu (heap excl_machine 7)))
                    (heap excl_machine 7)"
    by (simp add: mode_filter_fails_def ref_pmu_def)
  have mapped: "0 \<le> map_event ((\<lambda>p. ref_pmu 2 None) (pmu (heap excl_machine 7)))
                      (heap excl_machine 7)"
    by (simp add: excl_machine_def boot_machine_def raw_event_def raw_attr_def ref_pmu_def
          armpmu_map_raw_event_def)
  have reserved: "fst (armpmu_reserve_hardware one_irq_platform nothing_reserved) = 0"
    by code_simp
  have released: "irqs_held (armpmu_release_hardware one_irq_platform
                    (snd (armpmu_reserve_hardware one_irq_platform nothing_reserved))) = []"
    by code_simp
  have idle: "active_events nothing_reserved = 0"
    by (simp add: nothing_reserved_def)
  obtain m' where a: "hw_perf_event_init only_pmu_0 (\<lambda>p. ref_pmu 2 None) excl_machine 7
          = Some (- EPERM, m')"
    and b: "armpmu_event_init only_pmu_0 (\<lambda>p. ref_pmu 2 None) one_irq_platform 7
          (excl_machine, nothing_reserved\<lparr>active_events := 1\<rparr>)
         = Some (- EPERM, m', nothing_reserved\<lparr>active_events := 1\<rparr>)"
    using mode_exclusion_denied [where m = excl_machine and e = 7
            and to_arm_pmu = "\<lambda>p. ref_pmu 2 None" and is_arm_pmu = only_pmu_0
            and pd = one_irq_platform and res = "nothing_reserved\<lparr>active_events := 1\<rparr>"]
          excl nofilter mapped
    by auto
  obtain m'' where a': "hw_perf_event_init only_pmu_0 (\<lambda>p. ref_pmu 2 None) excl_machine 7
          = Some (- EPERM, m'')"
    and c: "armpmu_event_init only_pmu_0 (\<lambda>p. ref_pmu 2 None) one_irq_platform 7
          (excl_machine, nothing_reserved)
         = Some (- EPERM, m'',
                 armpmu_release_hardware one_irq_platform
                   (snd (armpmu_reserve_hardware one_irq_platform nothing_reserved)))"
    using mode_exclusion_denied [where m = excl_machine and e = 7
            and to_arm_pmu = "\<lambda>p. ref_pmu 2 None" and is_arm_pmu = only_pmu_0
            and pd = one_irq_platform and res = nothing_reserved]
          excl nofilter mapped reserved idle
    by auto
  from a a' have "m'' = m'" by simp
  with a b c released show ?thesis by blast
qed

text \<open>The claim as written fails on the order of events: with no event active, the
  creation that ends in \<open>-EPERM\<close> has by then reserved the PMU and requested interrupt 5
  (and released both again); the log of platform calls, latest first, is not empty.\<close>

theorem mode_exclusion_after_reservation_counterexample:
  "event_requires_mode_exclusion (attr (heap excl_machine 7))
   \<and> mode_filter_fails (ref_pmu 2 None) (heap excl_machine 7)
   \<and> calls nothing_reserved = []
   \<and> map_option (\<lambda>s. (fst s, calls (snd (snd s))))
        (armpmu_event_init only_pmu_0 (\<lambda>p. ref_pmu 2 None) one_irq_platform 7
           (excl_machine, nothing_reserved))
       = Some (- EPERM, [Release_pmu, Free_irq 5, Request_irq 5 Backend_handle_irq, Reserve_pmu])"
  by code_simp

subsection \<open>Interrupt reservation\<close>

text \<open>
  C8. Reservation is claimed to be all-or-nothing. On a platform device without
  interrupt resources \<open>armpmu_reserve_hardware\<close> fails with \<open>-ENODEV\<close> (NoHardware) as
  claimed, but it returns straight after the test \<open>irqs < 1\<close>: the lower-level
  reservation taken by \<open>reserve_pmu\<close> a few lines earlier stays held, and a second
  attempt is refused as busy. (After a failed \<open>request_irq\<close> the function does call
  \<open>armpmu_release_hardware\<close>, which ends in \<open>release_pmu\<close>.)
\<close>

theorem reserve_without_irqs_keeps_pmu:
  "armpmu_reserve_hardware no_irq_platform nothing_reserved
     = (- ENODEV, nothing_reserved\<lparr>pmu_reserved := True, calls := [Reserve_pmu]\<rparr>)
   \<and> fst (armpmu_reserve_hardware no_irq_platform
           (snd (armpmu_reserve_hardware no_irq_platform nothing_reserved))) = - EBUSY"
  by (simp add: armpmu_reserve_hardware_def reserve_pmu_def no_irq_platform_def
        one_irq_platform_def nothing_reserved_def Let_def errno_defs)

text \<open>The sibling path: the second of two interrupts cannot be requested; the first is
  freed again and the PMU reservation is released.\<close>

lemma reserve_request_failure_rolls_back:
  "armpmu_reserve_hardware second_irq_busy_platform nothing_reserved
     = (- EBUSY, nothing_reserved\<lparr>calls := [Release_pmu, Free_irq 5,
          Request_irq 6 Backend_handle_irq, Request_irq 5 Backend_handle_irq, Reserve_pmu]\<rparr>)"
  by code_simp


subsection \<open>What the operations write\<close>

text \<open>The shape of \<open>__hw_perf_event_init\<close>: apart from the event's own hardware state it
  writes nothing, and the hardware state it stores has the index \<open>-1\<close> when the filter
  leaves the index alone.\<close>

lemma hw_perf_event_init_cases:
  "\<exists>hE h1.
     hw_perf_event_init is_arm_pmu to_arm_pmu m e =
       (if map_event (to_arm_pmu (pmu (heap m e))) (heap m e) < 0
        then Some (map_event (to_arm_pmu (pmu (heap m e))) (heap m e), m)
        else if mode_filter_fails (to_arm_pmu (pmu (heap m e))) (heap m e)
                \<and> event_requires_mode_exclusion (attr (heap m e))
        then Some (- EPERM, m\<lparr>heap := (heap m)(e := (heap m e)\<lparr>hw := hE\<rparr>)\<rparr>)
        else if group_leader (heap m e) \<noteq> e
        then (case validate_group is_arm_pmu to_arm_pmu
                     (m\<lparr>heap := (heap m)(e := (heap m e)\<lparr>hw := h1\<rparr>)\<rparr>) e of
                None \<Rightarrow> None
              | Some (err, m2) \<Rightarrow> if err \<noteq> 0 then Some (- EINVAL, m2) else Some (err, m2))
        else Some (0, m\<lparr>heap := (heap m)(e := (heap m e)\<lparr>hw := h1\<rparr>)\<rparr>))
     \<and> (filter_keeps_idx (to_arm_pmu (pmu (heap m e))) \<longrightarrow> idx hE = - 1 \<and> idx h1 = - 1)"
proof -
  define armpmu where "armpmu = to_arm_pmu (pmu (heap m e))"
  define hwc1 where
    "hwc1 = (hw (heap m e))\<lparr>idx := - 1, config_base := 0, config := 0, event_base := 0\<rparr>"
  define hwc2 where
    "hwc2 = (case set_event_filter armpmu of
               None \<Rightarrow> hwc1
             | Some f \<Rightarrow> snd (f hwc1 (attr (heap m e))))"
  define hwc3 where
    "hwc3 = hwc2\<lparr>config_base := config_base hwc2
                    OR word_of_int (map_event armpmu (heap m e))\<rparr>"
  define hwc4 where
    "hwc4 = (if sample_period hwc3 = 0
             then hwc3\<lparr>sample_period := max_period armpmu, last_period := max_period armpmu,
                       period_left := max_period armpmu\<rparr>
             else hwc3)"
  have eq: "hw_perf_event_init is_arm_pmu to_arm_pmu m e =
       (if map_event (to_arm_pmu (pmu (heap m e))) (heap m e) < 0
        then Some (map_event (to_arm_pmu (pmu (heap m e))) (heap m e), m)
        else if mode_filter_fails (to_arm_pmu (pmu (heap m e))) (heap m e)
                \<and> event_requires_mode_exclusion (attr (heap m e))
        then Some (- EPERM, m\<lparr>heap := (heap m)(e := (heap m e)\<lparr>hw := hwc2\<rparr>)\<rparr>)
        else if group_leader (heap m e) \<noteq> e
        then (case validate_group is_arm_pmu to_arm_pmu
                     (m\<lparr>heap := (heap m)(e := (heap m e)\<lparr>hw := hwc4\<rparr>)\<rparr>) e of
                None \<Rightarrow> None
              | Some (err, m2) \<Rightarrow> if err \<noteq> 0 then Some (- EINVAL, m2) else Some (err, m2))
        else Some (0, m\<lparr>heap := (heap m)(e := (heap m e)\<lparr>hw := hwc4\<rparr>)\<rparr>))"
  proof (cases "set_event_filter (to_arm_pmu (pmu (heap m e)))")
    case None
    then show ?thesis
      by (simp add: hw_perf_event_init_def mode_filter_fails_def Let_def case_prod_beta
            hwc4_def hwc3_def hwc2_def hwc1_def armpmu_def)
  next
    case (Some f)
    then show ?thesis
      by (auto simp add: hw_perf_event_init_def mode_filter_fails_def Let_def case_prod_beta
            hwc4_def hwc3_def hwc2_def hwc1_def armpmu_def)
  qed
  have "idx hwc2 = - 1 \<and> idx hwc4 = - 1" if "filter_keeps_idx (to_arm_pmu (pmu (heap m e)))"
  proof -
    have "idx hwc2 = - 1"
      using that
      by (simp add: filter_keeps_idx_def hwc2_def hwc1_def armpmu_def split: option.splits)
    then show ?thesis by (simp add: hwc4_def hwc3_def)
  qed
  with eq show ?thesis by blast
qed

lemma hw_perf_event_init_effect:
  assumes "hw_perf_event_init is_arm_pmu to_arm_pmu m e = Some (r, m')"
  shows "percpu m' = percpu m"
    and "\<And>a. a \<noteq> e \<Longrightarrow> heap m' a = heap m a"
    and "0 \<le> map_event (to_arm_pmu (pmu (heap m e))) (heap m e) \<Longrightarrow>
         filter_keeps_idx (to_arm_pmu (pmu (heap m e))) \<Longrightarrow> idx (hw (heap m' e)) = - 1"
proof -
  obtain hE h1 where eq: "hw_perf_event_init is_arm_pmu to_arm_pmu m e =
       (if map_event (to_arm_pmu (pmu (heap m e))) (heap m e) < 0
        then Some (map_event (to_arm_pmu (pmu (heap m e))) (heap m e), m)
        else if mode_filter_fails (to_arm_pmu (pmu (heap m e))) (heap m e)
                \<and> event_requires_mode_exclusion (attr (heap m e))
        then Some (- EPERM, m\<lparr>heap := (heap m)(e := (heap m e)\<lparr>hw := hE\<rparr>)\<rparr>)
        else if group_leader (heap m e) \<noteq> e
        then (case validate_group is_arm_pmu to_arm_pmu
                     (m\<lparr>heap := (heap m)(e := (heap m e)\<lparr>hw := h1\<rparr>)\<rparr>) e of
                None \<Rightarrow> None
              | Some (err, m2) \<Rightarrow> if err \<noteq> 0 then Some (- EINVAL, m2) else Some (err, m2))
        else Some (0, m\<lparr>heap := (heap m)(e := (heap m e)\<lparr>hw := h1\<rparr>)\<rparr>))"
    and ix: "filter_keeps_idx (to_arm_pmu (pmu (heap m e))) \<longrightarrow> idx hE = - 1 \<and> idx h1 = - 1"
    using hw_perf_event_init_cases [of is_arm_pmu to_arm_pmu m e] by blast
  have shape: "m' = m \<and> map_event (to_arm_pmu (pmu (heap m e))) (heap m e) < 0
      \<or> m' = m\<lparr>heap := (heap m)(e := (heap m e)\<lparr>hw := hE\<rparr>)\<rparr>
      \<or> m' = m\<lparr>heap := (heap m)(e := (heap m e)\<lparr>hw := h1\<rparr>)\<rparr>"
    using assms unfolding eq
    by (auto split: if_splits option.splits dest: validate_group_frame)
  from shape show "percpu m' = percpu m" by auto
  from shape show "heap m' a = heap m a" if "a \<noteq> e" for a using that by auto
  from shape ix show "idx (hw (heap m' e)) = - 1"
    if "0 \<le> map_event (to_arm_pmu (pmu (heap m e))) (heap m e)"
      and "filter_keeps_idx (to_arm_pmu (pmu (heap m e)))"
    using that by auto
qed



lemma set_period_idx [simp]:
  "idx (fst (snd (armpmu_event_set_period to_arm_pmu event hwc i regs))) = idx hwc"
  by (simp add: armpmu_event_set_period_def Let_def case_prod_beta)

lemma event_update_idx [simp]:
  "idx (fst (snd (snd (armpmu_event_update to_arm_pmu event hwc i ov regs)))) = idx hwc"
  by (simp add: armpmu_event_update_def Let_def case_prod_beta)

lemma armpmu_start_idx [simp]:
  "idx (hw (fst (armpmu_start to_arm_pmu event flags regs))) = idx (hw event)"
  by (simp add: armpmu_start_def Let_def case_prod_beta)

lemma armpmu_stop_idx [simp]:
  "idx (hw (fst (armpmu_stop to_arm_pmu event flags regs))) = idx (hw event)"
  by (simp add: armpmu_stop_def Let_def case_prod_beta)

lemma allocator_okD:
  assumes "allocator_ok armpmu" and "get_event_idx armpmu cpuc hwc = (i, cpuc', hwc')"
  shows "events cpuc' = events cpuc" and "hwc' = hwc"
    and "i < 0 \<Longrightarrow> used_mask cpuc' = used_mask cpuc"
    and "0 \<le> i \<Longrightarrow> i < num_events armpmu \<and> \<not> bit (used_mask cpuc) (nat i)
                   \<and> used_mask cpuc' = set_bit (nat i) (used_mask cpuc)"
  using assms unfolding allocator_ok_def
  by (auto dest!: spec [where x = cpuc] spec [where x = hwc] split: if_splits)

lemma armpmu_del_effect:
  assumes "armpmu_del to_arm_pmu cpu e flags m = Some m'"
  shows "0 \<le> idx (hw (heap m e))" and "idx (hw (heap m e)) < int ARMPMU_MAX_HWEVENTS"
    and "percpu m' = (percpu m)(cpu := (percpu m cpu)
           \<lparr>events := (events (percpu m cpu))(nat (idx (hw (heap m e))) := None),
            used_mask := unset_bit (nat (idx (hw (heap m e)))) (used_mask (percpu m cpu))\<rparr>)"
    and "\<And>a. a \<noteq> e \<Longrightarrow> heap m' a = heap m a"
    and "idx (hw (heap m' e)) = idx (hw (heap m e))"
  using assms
  by (auto simp add: armpmu_del_def Let_def case_prod_beta split: if_splits)

lemma armpmu_add_effect:
  assumes "armpmu_add to_arm_pmu cpu e flags m = Some (r, m')"
    and "get_event_idx (to_arm_pmu (pmu (heap m e))) (percpu m cpu) (hw (heap m e)) = (i, c', h')"
  shows "i < int ARMPMU_MAX_HWEVENTS"
    and "percpu m' = (percpu m)(cpu := (if i < 0 then c'
                         else c'\<lparr>events := (events c')(nat i := Some e)\<rparr>))"
    and "\<And>a. a \<noteq> e \<Longrightarrow> heap m' a = heap m a"
    and "0 \<le> i \<Longrightarrow> r = 0 \<and> idx (hw (heap m' e)) = i"
    and "i < 0 \<Longrightarrow> r = i \<and> hw (heap m' e) = h'"
  using assms
  by (auto simp add: armpmu_add_def Let_def case_prod_beta split: if_splits)
subsection \<open>Occupancy of one CPU's table\<close>

lemma table_consistent_iff:
  "table_consistent n cpuc \<longleftrightarrow>
    (\<forall>i<32. (bit (used_mask cpuc) i \<longleftrightarrow> events cpuc i \<noteq> None)
            \<and> (bit (used_mask cpuc) i \<longrightarrow> int i < n))"
  by (auto simp add: table_consistent_def list_all_iff ARMPMU_MAX_HWEVENTS_def)

lemma table_consistent_zeroed: "table_consistent n zeroed_cpu_hw_events"
  by (simp add: table_consistent_iff zeroed_cpu_hw_events_def)

lemma filter_upt_bounded:
  assumes "\<And>i. i < n \<Longrightarrow> P i \<Longrightarrow> i < k"
  shows "length (filter P [0..<n]) \<le> k"
proof -
  have d: "distinct (filter P [0..<n])" by simp
  have "set (filter P [0..<n]) \<subseteq> {..<k}" using assms by auto
  then have "card (set (filter P [0..<n])) \<le> card {..<k}"
    by (intro card_mono) auto
  then show ?thesis using distinct_card [OF d] by simp
qed

lemma table_consistent_counts:
  assumes "table_consistent n cpuc" and "0 \<le> n"
  shows "hweight (used_mask cpuc) = num_scheduled cpuc"
    and "int (num_scheduled cpuc) \<le> n"
proof -
  from assms(1) have inv: "\<And>i. i < 32 \<Longrightarrow> (bit (used_mask cpuc) i \<longleftrightarrow> events cpuc i \<noteq> None)"
    and low: "\<And>i. i < 32 \<Longrightarrow> bit (used_mask cpuc) i \<Longrightarrow> int i < n"
    by (simp_all add: table_consistent_iff)
  show "hweight (used_mask cpuc) = num_scheduled cpuc"
    unfolding hweight_def num_scheduled_def ARMPMU_MAX_HWEVENTS_def
    by (rule arg_cong [where f = length], rule filter_cong) (simp_all add: inv)
  have "length (filter (\<lambda>i. events cpuc i \<noteq> None) [0..<32]) \<le> nat n"
  proof (rule filter_upt_bounded)
    fix i assume "i < 32" "events cpuc i \<noteq> None"
    then have "int i < n" using inv low by blast
    then show "i < nat n" by linarith
  qed
  then show "int (num_scheduled cpuc) \<le> n"
    using assms(2) by (simp add: num_scheduled_def ARMPMU_MAX_HWEVENTS_def)
qed

lemma table_consistent_claim:
  assumes "table_consistent n cpuc" and "n \<le> 32" and "0 \<le> i" and "i < n"
    and "\<not> bit (used_mask cpuc) (nat i)"
  shows "table_consistent n
           (cpuc\<lparr>used_mask := set_bit (nat i) (used_mask cpuc),
                 events := (events cpuc)(nat i := Some e)\<rparr>)"
  using assms by (auto simp add: table_consistent_iff bit_set_bit_iff)

lemma table_consistent_vacate:
  assumes "table_consistent n cpuc"
  shows "table_consistent n
           (cpuc\<lparr>events := (events cpuc)(j := None),
                 used_mask := unset_bit j (used_mask cpuc)\<rparr>)"
  using assms by (auto simp add: table_consistent_iff bit_unset_bit_iff)

lemma table_consistent_cong:
  "table_consistent n c \<Longrightarrow> used_mask c' = used_mask c \<Longrightarrow> events c' = events c
     \<Longrightarrow> table_consistent n c'"
  by (simp add: table_consistent_iff)

lemma step_table_consistent:
  assumes ok: "allocator_ok armpmu" and n: "num_events armpmu \<le> 32"
    and inv: "\<And>cpu. table_consistent (num_events armpmu) (percpu m cpu)"
    and st: "step is_arm_pmu (\<lambda>p. armpmu) a m = Some m'"
  shows "table_consistent (num_events armpmu) (percpu m' cpu)"
proof (cases a)
  case (Init e)
  with st obtain r where "hw_perf_event_init is_arm_pmu (\<lambda>p. armpmu) m e = Some (r, m')"
    by (auto simp add: step_def)
  then have "percpu m' = percpu m" by (rule hw_perf_event_init_effect(1))
  with inv show ?thesis by simp
next
  case (Add c e flags)
  with st obtain r where add: "armpmu_add (\<lambda>p. armpmu) c e flags m = Some (r, m')"
    by (auto simp add: step_def)
  obtain i c' h' where g: "get_event_idx armpmu (percpu m c) (hw (heap m e)) = (i, c', h')"
    by (cases "get_event_idx armpmu (percpu m c) (hw (heap m e))") auto
  note eff = armpmu_add_effect [OF add g]
  note al = allocator_okD [OF ok g]
  show ?thesis
  proof (cases "i < 0")
    case True
    then have "table_consistent (num_events armpmu) c'"
      using table_consistent_cong [OF inv [of c]] al(1) al(3) by simp
    with True eff(2) inv show ?thesis by simp
  next
    case False
    then have i: "0 \<le> i" "i < num_events armpmu" "\<not> bit (used_mask (percpu m c)) (nat i)"
      and mask: "used_mask c' = set_bit (nat i) (used_mask (percpu m c))"
      using al(4) by simp_all
    have "table_consistent (num_events armpmu) (c'\<lparr>events := (events c')(nat i := Some e)\<rparr>)"
      using inv [of c] i n
      by (auto simp add: table_consistent_iff al(1) mask bit_set_bit_iff)
    with False eff(2) inv show ?thesis by simp
  qed
next
  case (Del c e flags)
  with st have del: "armpmu_del (\<lambda>p. armpmu) c e flags m = Some m'"
    by (simp add: step_def)
  note eff = armpmu_del_effect [OF del]
  show ?thesis
    using eff(3) inv [of cpu] table_consistent_vacate [OF inv [of c]] by simp
qed

lemma run_table_consistent:
  assumes ok: "allocator_ok armpmu" and n: "num_events armpmu \<le> 32"
  shows "(\<And>cpu. table_consistent (num_events armpmu) (percpu m cpu)) \<Longrightarrow>
         run is_arm_pmu (\<lambda>p. armpmu) ops m = Some m' \<Longrightarrow>
         table_consistent (num_events armpmu) (percpu m' cpu)"
proof (induction ops arbitrary: m)
  case Nil
  then show ?case by simp
next
  case (Cons a ops)
  from Cons.prems(2) obtain m1 where st: "step is_arm_pmu (\<lambda>p. armpmu) a m = Some m1"
    and rest: "run is_arm_pmu (\<lambda>p. armpmu) ops m1 = Some m'"
    by (auto split: option.splits)
  have "\<And>c. table_consistent (num_events armpmu) (percpu m1 c)"
    using step_table_consistent [OF ok n _ st] Cons.prems(1) by blast
  then show ?case using Cons.IH rest by blast
qed

lemma ref_allocator_ok: "allocator_ok (ref_pmu n flt)"
proof -
  have found: "int i < n \<and> \<not> bit w i"
    if "find (\<lambda>i. \<not> bit (w::u32) i) [0..<nat n] = Some i" for w i
  proof -
    from that have "i < nat n \<and> \<not> bit w i" by (auto simp add: find_Some_iff)
    then show ?thesis by linarith
  qed
  show ?thesis
    by (auto simp add: allocator_ok_def ref_pmu_def ref_get_event_idx_def ENOSPC_def
          split: option.splits dest: found)
qed

text \<open>
  C2. Starting from the zeroed tables of the boot state, after every sequence of
  operations (adds and removes on any CPU, initialisations in between) that the driver
  executes without undefined behaviour, each CPU's table has as many bits set in
  \<open>used_mask\<close> as it has non-empty \<open>events\<close> entries, and that number is at most
  \<open>num_events\<close>. The backend's allocator is taken to honour the occupancy contract, and
  \<open>num_events\<close> to lie between 0 and \<open>ARMPMU_MAX_HWEVENTS\<close>.
\<close>

theorem used_mask_counts_scheduled:
  assumes "allocator_ok armpmu"
    and "0 \<le> num_events armpmu" and "num_events armpmu \<le> int ARMPMU_MAX_HWEVENTS"
    and "run is_arm_pmu (\<lambda>p. armpmu) ops (boot_machine hp regs) = Some m"
  shows "hweight (used_mask (percpu m cpu)) = num_scheduled (percpu m cpu)
         \<and> int (num_scheduled (percpu m cpu)) \<le> num_events armpmu"
proof -
  have n: "num_events armpmu \<le> 32" using assms(3) by (simp add: ARMPMU_MAX_HWEVENTS_def)
  have "\<And>c. table_consistent (num_events armpmu) (percpu (boot_machine hp regs) c)"
    by (simp add: boot_machine_def table_consistent_zeroed)
  then have "table_consistent (num_events armpmu) (percpu m cpu)"
    using run_table_consistent [OF assms(1) n _ assms(4)] by blast
  then show ?thesis using table_consistent_counts assms(2) by blast
qed

text \<open>Two counters on the reference backend: three events are added on CPU 0, the third
  finds no counter, then the first is removed. One bit and one slot remain.\<close>

theorem used_mask_counts_scheduled_witness:
  "\<exists>m. run only_pmu_0 (\<lambda>p. ref_pmu 2 None)
          [Init 7, Add 0 7 0, Add 0 8 PERF_EF_START, Add 0 9 0, Del 0 7 0] solo_machine = Some m
       \<and> hweight (used_mask (percpu m 0)) = num_scheduled (percpu m 0)
       \<and> num_scheduled (percpu m 0) = 1
       \<and> used_mask (percpu m 0) = 2"
proof -
  let ?ops = "[Init 7, Add 0 7 0, Add 0 8 PERF_EF_START, Add 0 9 0, Del 0 7 0]"
  have "\<not> Option.is_none (run only_pmu_0 (\<lambda>p. ref_pmu 2 None) ?ops solo_machine)"
    by code_simp
  then obtain m where m: "run only_pmu_0 (\<lambda>p. ref_pmu 2 None) ?ops solo_machine = Some m"
    by (auto simp add: Option.is_none_def)
  have "map_option (\<lambda>m. (num_scheduled (percpu m 0), used_mask (percpu m 0)))
          (run only_pmu_0 (\<lambda>p. ref_pmu 2 None) ?ops solo_machine) = Some (1, 2)"
    by code_simp
  with m have vals: "num_scheduled (percpu m 0) = 1" "used_mask (percpu m 0) = 2" by simp_all
  have n0: "0 \<le> num_events (ref_pmu 2 None)"
    and n1: "num_events (ref_pmu 2 None) \<le> int ARMPMU_MAX_HWEVENTS"
    by (simp_all add: ref_pmu_def ARMPMU_MAX_HWEVENTS_def)
  from used_mask_counts_scheduled [OF ref_allocator_ok n0 n1 m [unfolded solo_machine_def], of 0]
  show ?thesis using m vals by auto
qed

subsection \<open>The hardware index of scheduled events\<close>

lemma slots_agree_iff:
  "slots_agree ncpus m \<longleftrightarrow>
    (\<forall>cpu<ncpus. \<forall>i<32. \<forall>e. events (percpu m cpu) i = Some e \<longrightarrow> idx (hw (heap m e)) = int i)"
  by (auto simp add: slots_agree_def list_all_iff ARMPMU_MAX_HWEVENTS_def split: option.splits)

lemma scheduled_iff:
  "scheduled ncpus m e \<longleftrightarrow> (\<exists>cpu<ncpus. \<exists>i<32. events (percpu m cpu) i = Some e)"
  by (simp add: scheduled_def occupies_def list_ex_iff ARMPMU_MAX_HWEVENTS_def Bex_def)

lemma slots_agree_boot: "slots_agree ncpus (boot_machine hp regs)"
  by (simp add: slots_agree_iff boot_machine_def zeroed_cpu_hw_events_def)

lemma step_slots_agree:
  assumes ok: "\<forall>p. allocator_ok (to_arm_pmu p)"
    and inv: "slots_agree ncpus m"
    and leg: "legal ncpus a m"
    and st: "step is_arm_pmu to_arm_pmu a m = Some m'"
  shows "slots_agree ncpus m'"
proof (cases a)
  case (Init e)
  with st obtain r where "hw_perf_event_init is_arm_pmu to_arm_pmu m e = Some (r, m')"
    by (auto simp add: step_def)
  note eff = hw_perf_event_init_effect [OF this]
  from Init leg have free: "\<not> scheduled ncpus m e" by (simp add: legal_def)
  show ?thesis
    unfolding slots_agree_iff
  proof (intro allI impI)
    fix cpu i a
    assume b: "cpu < ncpus" "i < 32" and held: "events (percpu m' cpu) i = Some a"
    then have old: "events (percpu m cpu) i = Some a" by (simp add: eff(1))
    with b free have "a \<noteq> e" by (auto simp add: scheduled_iff)
    then have "heap m' a = heap m a" by (rule eff(2))
    with inv b old show "idx (hw (heap m' a)) = int i" by (simp add: slots_agree_iff)
  qed
next
  case (Add c e flags)
  with st obtain r where add: "armpmu_add to_arm_pmu c e flags m = Some (r, m')"
    by (auto simp add: step_def)
  from Add leg have free: "\<not> scheduled ncpus m e" by (simp add: legal_def)
  obtain j c' h' where
    g: "get_event_idx (to_arm_pmu (pmu (heap m e))) (percpu m c) (hw (heap m e)) = (j, c', h')"
    by (cases "get_event_idx (to_arm_pmu (pmu (heap m e))) (percpu m c) (hw (heap m e))") auto
  note eff = armpmu_add_effect [OF add g]
  from ok have "allocator_ok (to_arm_pmu (pmu (heap m e)))" by simp
  note al = allocator_okD [OF this g]
  show ?thesis
    unfolding slots_agree_iff
  proof (intro allI impI)
    fix cpu i a
    assume b: "cpu < ncpus" "i < 32" and held: "events (percpu m' cpu) i = Some a"
    show "idx (hw (heap m' a)) = int i"
    proof (cases "cpu = c \<and> 0 \<le> j \<and> i = nat j")
      case True
      with held eff(2) have "a = e" by simp
      with True eff(4) show ?thesis by simp
    next
      case False
      with held eff(2) al(1) have old: "events (percpu m cpu) i = Some a"
        by (auto split: if_splits)
      with b free have "a \<noteq> e" by (auto simp add: scheduled_iff)
      then have "heap m' a = heap m a" by (rule eff(3))
      with inv b old show ?thesis by (simp add: slots_agree_iff)
    qed
  qed
next
  case (Del c e flags)
  with st have del: "armpmu_del to_arm_pmu c e flags m = Some m'" by (simp add: step_def)
  note eff = armpmu_del_effect [OF del]
  show ?thesis
    unfolding slots_agree_iff
  proof (intro allI impI)
    fix cpu i a
    assume b: "cpu < ncpus" "i < 32" and held: "events (percpu m' cpu) i = Some a"
    with eff(3) have old: "events (percpu m cpu) i = Some a"
      by (auto split: if_splits)
    have "idx (hw (heap m' a)) = idx (hw (heap m a))"
      using eff(4) [of a] eff(5) by (cases "a = e") simp_all
    with inv b old show "idx (hw (heap m' a)) = int i" by (simp add: slots_agree_iff)
  qed
qed

lemma run_slots_agree:
  assumes ok: "\<forall>p. allocator_ok (to_arm_pmu p)"
  shows "slots_agree ncpus m \<Longrightarrow> legal_run ncpus is_arm_pmu to_arm_pmu ops m \<Longrightarrow>
         run is_arm_pmu to_arm_pmu ops m = Some m' \<Longrightarrow> slots_agree ncpus m'"
proof (induction ops arbitrary: m)
  case Nil
  then show ?case by simp
next
  case (Cons a ops)
  from Cons.prems(3) obtain m1 where st: "step is_arm_pmu to_arm_pmu a m = Some m1"
    and rest: "run is_arm_pmu to_arm_pmu ops m1 = Some m'"
    by (auto split: option.splits)
  from Cons.prems(2) st have leg: "legal ncpus a m"
    and legs: "legal_run ncpus is_arm_pmu to_arm_pmu ops m1"
    by simp_all
  have "slots_agree ncpus m1" using step_slots_agree [OF ok Cons.prems(1) leg st] .
  then show ?case using Cons.IH legs rest by blast
qed

text \<open>
  C1 (as amended). With allocators that honour the occupancy contract, after every
  sequence of init/add/del operations that follows the framework's protocol from the
  boot state, an event that occupies counter slot \<open>i\<close> of some CPU's table has
  \<open>hwc->idx = i\<close>, a valid (non-negative) index; so an event whose index is the
  sentinel occupies no slot. Initialisation that gets past event mapping sets the index
  to the sentinel \<open>-1\<close> (the backend's filter leaving the index alone). \<open>armpmu_add\<close>
  assigns the index exactly when it claims a slot: when it returns 0 the event sits in
  the slot its index names, otherwise the result is negative and neither the event's
  hardware state nor the table's slots have changed. \<open>armpmu_del\<close> empties the slot the
  index names and does not write the index: it keeps its valid value after the
  event has left the table.
\<close>

theorem scheduled_event_has_its_slot_index:
  assumes "\<forall>p. allocator_ok (to_arm_pmu p)"
  shows
    "(legal_run ncpus is_arm_pmu to_arm_pmu ops (boot_machine hp regs) \<longrightarrow>
      run is_arm_pmu to_arm_pmu ops (boot_machine hp regs) = Some m \<longrightarrow>
      cpu < ncpus \<longrightarrow> i < ARMPMU_MAX_HWEVENTS \<longrightarrow> events (percpu m cpu) i = Some e \<longrightarrow>
      idx (hw (heap m e)) = int i)
   \<and> (0 \<le> map_event (to_arm_pmu (pmu (heap m0 e0))) (heap m0 e0) \<longrightarrow>
      filter_keeps_idx (to_arm_pmu (pmu (heap m0 e0))) \<longrightarrow>
      hw_perf_event_init is_arm_pmu to_arm_pmu m0 e0 = Some (r0, m0') \<longrightarrow>
      idx (hw (heap m0' e0)) = - 1)
   \<and> (armpmu_add to_arm_pmu c1 e1 f1 m1 = Some (r1, m1') \<longrightarrow>
      (if r1 = 0
       then 0 \<le> idx (hw (heap m1' e1))
            \<and> events (percpu m1' c1) (nat (idx (hw (heap m1' e1)))) = Some e1
       else r1 < 0 \<and> hw (heap m1' e1) = hw (heap m1 e1)
            \<and> events (percpu m1' c1) = events (percpu m1 c1)))
   \<and> (armpmu_del to_arm_pmu c2 e2 f2 m2 = Some m2' \<longrightarrow>
      0 \<le> idx (hw (heap m2 e2))
      \<and> idx (hw (heap m2' e2)) = idx (hw (heap m2 e2))
      \<and> events (percpu m2' c2) (nat (idx (hw (heap m2 e2)))) = None)"
proof (intro conjI impI)
  assume "legal_run ncpus is_arm_pmu to_arm_pmu ops (boot_machine hp regs)"
    and "run is_arm_pmu to_arm_pmu ops (boot_machine hp regs) = Some m"
    and "cpu < ncpus" and "i < ARMPMU_MAX_HWEVENTS" and "events (percpu m cpu) i = Some e"
  moreover from this have "slots_agree ncpus m"
    using run_slots_agree [OF assms slots_agree_boot] by blast
  ultimately show "idx (hw (heap m e)) = int i"
    by (simp add: slots_agree_iff ARMPMU_MAX_HWEVENTS_def)
next
  assume "0 \<le> map_event (to_arm_pmu (pmu (heap m0 e0))) (heap m0 e0)"
    and "filter_keeps_idx (to_arm_pmu (pmu (heap m0 e0)))"
    and "hw_perf_event_init is_arm_pmu to_arm_pmu m0 e0 = Some (r0, m0')"
  then show "idx (hw (heap m0' e0)) = - 1"
    using hw_perf_event_init_effect(3) by blast
next
  assume add: "armpmu_add to_arm_pmu c1 e1 f1 m1 = Some (r1, m1')"
  obtain j c' h' where
    g: "get_event_idx (to_arm_pmu (pmu (heap m1 e1))) (percpu m1 c1) (hw (heap m1 e1)) = (j, c', h')"
    by (cases "get_event_idx (to_arm_pmu (pmu (heap m1 e1))) (percpu m1 c1) (hw (heap m1 e1))")
      auto
  note eff = armpmu_add_effect [OF add g]
  from assms have "allocator_ok (to_arm_pmu (pmu (heap m1 e1)))" by simp
  note al = allocator_okD [OF this g]
  show "if r1 = 0
        then 0 \<le> idx (hw (heap m1' e1))
             \<and> events (percpu m1' c1) (nat (idx (hw (heap m1' e1)))) = Some e1
        else r1 < 0 \<and> hw (heap m1' e1) = hw (heap m1 e1)
             \<and> events (percpu m1' c1) = events (percpu m1 c1)"
  proof (cases "j < 0")
    case True
    with eff(5) eff(2) al(1) al(2) show ?thesis by simp
  next
    case False
    with eff(4) eff(2) show ?thesis by simp
  qed
next
  assume del: "armpmu_del to_arm_pmu c2 e2 f2 m2 = Some m2'"
  note eff = armpmu_del_effect [OF del]
  show "0 \<le> idx (hw (heap m2 e2))" by (rule eff(1))
  show "idx (hw (heap m2' e2)) = idx (hw (heap m2 e2))" by (rule eff(5))
  show "events (percpu m2' c2) (nat (idx (hw (heap m2 e2)))) = None"
    by (simp add: eff(3))
qed

text \<open>Two CPUs, two counters each, on the reference backend. Events 7 and 8 are
  initialised; 7 runs on CPU 0, 8 on CPU 1, then 7 moves to CPU 1, where it gets slot 1
  and index 1. Initialising 7 sets its index to \<open>-1\<close>; adding 9 to the empty CPU 0
  succeeds and puts it in the slot its index names; removing it again keeps the index.\<close>

theorem scheduled_event_has_its_slot_index_witness:
  "(\<exists>m. run only_pmu_0 (\<lambda>p. ref_pmu 2 None)
           [Init 7, Init 8, Add 0 7 PERF_EF_START, Add 1 8 0, Del 0 7 0, Add 1 7 0]
           solo_machine = Some m
        \<and> events (percpu m 1) 1 = Some 7 \<and> idx (hw (heap m 7)) = 1)
   \<and> (\<exists>m'. hw_perf_event_init only_pmu_0 (\<lambda>p. ref_pmu 2 None) solo_machine 7 = Some (0, m')
         \<and> idx (hw (heap m' 7)) = - 1)
   \<and> (\<exists>m'. armpmu_add (\<lambda>p. ref_pmu 2 None) 0 9 0 solo_machine = Some (0, m')
         \<and> events (percpu m' 0) (nat (idx (hw (heap m' 9)))) = Some 9
         \<and> (\<exists>m''. armpmu_del (\<lambda>p. ref_pmu 2 None) 0 9 0 m' = Some m''
               \<and> idx (hw (heap m'' 9)) = idx (hw (heap m' 9))
               \<and> events (percpu m'' 0) (nat (idx (hw (heap m' 9)))) = None))"
proof -
  let ?tap = "\<lambda>p::nat. ref_pmu 2 None"
  let ?ops = "[Init 7, Init 8, Add 0 7 PERF_EF_START, Add 1 8 0, Del 0 7 0, Add 1 7 0]"
  have ok: "\<forall>p. allocator_ok (?tap p)" by (simp add: ref_allocator_ok)
  note T = scheduled_event_has_its_slot_index [OF ok]
  have leg: "legal_run 2 only_pmu_0 ?tap ?ops solo_machine" by code_simp
  have "\<not> Option.is_none (run only_pmu_0 ?tap ?ops solo_machine)" by code_simp
  then obtain m where m: "run only_pmu_0 ?tap ?ops solo_machine = Some m"
    by (auto simp add: Option.is_none_def)
  have "map_option (\<lambda>m. events (percpu m 1) 1) (run only_pmu_0 ?tap ?ops solo_machine)
          = Some (Some 7)"
    by code_simp
  with m have slot: "events (percpu m 1) 1 = Some 7" by simp
  have "idx (hw (heap m 7)) = int 1"
    using T [THEN conjunct1, rule_format, where ncpus = 2 and ops = ?ops and m = m
               and cpu = 1 and i = 1 and e = 7 and is_arm_pmu = only_pmu_0]
      leg m slot
    by (simp add: solo_machine_def ARMPMU_MAX_HWEVENTS_def)
  with m slot have part1: "\<exists>m. run only_pmu_0 ?tap ?ops solo_machine = Some m
        \<and> events (percpu m 1) 1 = Some 7 \<and> idx (hw (heap m 7)) = 1"
    by simp
  have mapped: "0 \<le> map_event (?tap (pmu (heap solo_machine 7))) (heap solo_machine 7)"
    by (simp add: solo_machine_def boot_machine_def raw_event_def raw_attr_def ref_pmu_def
          armpmu_map_raw_event_def)
  have keeps: "filter_keeps_idx (?tap (pmu (heap solo_machine 7)))"
    by (simp add: filter_keeps_idx_def ref_pmu_def)
  have "map_option fst (hw_perf_event_init only_pmu_0 ?tap solo_machine 7) = Some 0"
    by code_simp
  then obtain mi where init7: "hw_perf_event_init only_pmu_0 ?tap solo_machine 7 = Some (0, mi)"
    by auto
  have "idx (hw (heap mi 7)) = - 1"
    using T [THEN conjunct2, THEN conjunct1, rule_format, where ?m0.0 = solo_machine
               and ?e0.0 = 7 and is_arm_pmu = only_pmu_0 and ?r0.0 = 0 and ?m0'.0 = mi]
          mapped keeps init7
    by simp
  with init7 have part2: "\<exists>m'. hw_perf_event_init only_pmu_0 ?tap solo_machine 7 = Some (0, m')
         \<and> idx (hw (heap m' 7)) = - 1"
    by blast
  have "\<not> Option.is_none (armpmu_add ?tap 0 9 0 solo_machine)" by code_simp
  then obtain r m' where add0: "armpmu_add ?tap 0 9 0 solo_machine = Some (r, m')"
    by (auto simp add: Option.is_none_def)
  have "map_option fst (armpmu_add ?tap 0 9 0 solo_machine) = Some 0" by code_simp
  with add0 have r: "r = 0" by simp
  have inslot: "events (percpu m' 0) (nat (idx (hw (heap m' 9)))) = Some 9"
    using T [THEN conjunct2, THEN conjunct2, THEN conjunct1, rule_format, OF add0] r
    by simp
  have "\<not> Option.is_none (Option.bind (armpmu_add ?tap 0 9 0 solo_machine)
            (\<lambda>s. armpmu_del ?tap 0 9 0 (snd s)))"
    by code_simp
  with add0 obtain m'' where del0: "armpmu_del ?tap 0 9 0 m' = Some m''"
    by (auto simp add: Option.is_none_def)
  have kept: "idx (hw (heap m'' 9)) = idx (hw (heap m' 9))
              \<and> events (percpu m'' 0) (nat (idx (hw (heap m' 9)))) = None"
    using T [THEN conjunct2, THEN conjunct2, THEN conjunct2, rule_format, OF del0]
    by simp
  from part1 part2 add0 r inslot del0 kept show ?thesis by blast
qed

text \<open>The claim as written fails after a removal: event 7 is initialised, added on
  CPU 0 and removed again, all within the protocol; its index is then still 0, a valid
  index, while it occupies no slot of either CPU.\<close>

theorem removed_event_keeps_index_counterexample:
  "legal_run 2 only_pmu_0 (\<lambda>p. ref_pmu 2 None) [Init 7, Add 0 7 0, Del 0 7 0] solo_machine
   \<and> map_option (\<lambda>m. (idx (hw (heap m 7)), scheduled 2 m 7))
        (run only_pmu_0 (\<lambda>p. ref_pmu 2 None) [Init 7, Add 0 7 0, Del 0 7 0] solo_machine)
       = Some (0, False)"
  by code_simp

end
